theory Spec2Isabelle
  imports Main "HOL-Library.AList"
begin

section \<open>JavaScript values and the object store\<close>

text \<open>
  The action of \<^verbatim>\<open>src/actions/SaveSubmission.js\<close> works on request bodies and
  submissions, which are JavaScript objects handled by reference. A value is a
  primitive or a reference into a store of cells; a cell is a plain object (its own
  properties in insertion order) or an array (its elements, and its other own
  properties). An address is an index into the store, and allocation appends a cell.
  Numbers are integers; members inherited from a prototype are not part of a cell.
\<close>

type_synonym addr = nat

datatype val = Undefined | Null | Bool bool | Num int | Str string | Ref addr

type_synonym props = "(string \<times> val) list"

datatype cell = Obj props | Arr "val list" props

type_synonym store = "cell list"

datatype err =
    EREQRECUR | ENOIDP | ENOHANDLER | EFORMLOAD | ESUBLOAD
  | TypeError | RangeError | Unmodelled | Raised string

fun truthy :: "val \<Rightarrow> bool" where
  "truthy Undefined = False"
| "truthy Null = False"
| "truthy (Bool b) = b"
| "truthy (Num n) = (n \<noteq> 0)"
| "truthy (Str s) = (s \<noteq> [])"
| "truthy (Ref a) = True"

fun nullish :: "val \<Rightarrow> bool" where
  "nullish Undefined = True"
| "nullish Null = True"
| "nullish v = False"

subsection \<open>Array indices written as property keys\<close>

definition digit_val :: "char \<Rightarrow> nat option" where
  "digit_val c =
     (let n = (of_char c :: nat) in if 48 \<le> n \<and> n \<le> 57 then Some (n - 48) else None)"

fun nat_of_digits :: "nat \<Rightarrow> string \<Rightarrow> nat option" where
  "nat_of_digits acc [] = Some acc"
| "nat_of_digits acc (c # cs) =
     (case digit_val c of None \<Rightarrow> None | Some d \<Rightarrow> nat_of_digits (10 * acc + d) cs)"

text \<open>The canonical decimal numerals: \<^verbatim>\<open>/^(?:0|[1-9]\d*)$/\<close>.\<close>

definition index_of :: "string \<Rightarrow> nat option" where
  "index_of k =
     (if k = [] \<or> (hd k = CHR ''0'' \<and> tl k \<noteq> []) then None else nat_of_digits 0 k)"

text \<open>An array index of the language is a canonical numeral below \<open>2^32 - 1\<close>.\<close>

definition array_index :: "string \<Rightarrow> nat option" where
  "array_index k =
     (case index_of k of
        Some i \<Rightarrow> if i < 4294967295 then Some i else None
      | None \<Rightarrow> None)"

text \<open>lodash's \<^verbatim>\<open>isIndex\<close>: a canonical numeral below \<^verbatim>\<open>MAX_SAFE_INTEGER\<close>.\<close>

definition is_index :: "string \<Rightarrow> bool" where
  "is_index k = (case index_of k of Some i \<Rightarrow> i < 9007199254740991 | None \<Rightarrow> False)"

subsection \<open>Reading and writing members\<close>

definition own_of_cell :: "cell \<Rightarrow> string \<Rightarrow> val option" where
  "own_of_cell c k =
     (case c of
        Obj ps \<Rightarrow> map_of ps k
      | Arr xs ps \<Rightarrow>
          if k = ''length'' then Some (Num (int (length xs)))
          else (case array_index k of
                  Some i \<Rightarrow> if i < length xs then Some (xs ! i) else None
                | None \<Rightarrow> map_of ps k))"

text \<open>
  The own property \<open>k\<close> of a value: of an object or array through the store, of a string
  its \<^verbatim>\<open>length\<close> and its characters; other primitives have none.
\<close>

definition own_of :: "store \<Rightarrow> val \<Rightarrow> string \<Rightarrow> val option" where
  "own_of h v k =
     (case v of
        Ref a \<Rightarrow> if a < length h then own_of_cell (h ! a) k else None
      | Str s \<Rightarrow>
          if k = ''length'' then Some (Num (int (length s)))
          else (case array_index k of
                  Some i \<Rightarrow> if i < length s then Some (Str [s ! i]) else None
                | None \<Rightarrow> None)
      | _ \<Rightarrow> None)"

text \<open>\<^verbatim>\<open>v[k]\<close> for a value that is neither \<^verbatim>\<open>undefined\<close> nor \<^verbatim>\<open>null\<close>.\<close>

definition get_member :: "store \<Rightarrow> val \<Rightarrow> string \<Rightarrow> val" where
  "get_member h v k = (case own_of h v k of Some x \<Rightarrow> x | None \<Rightarrow> Undefined)"

definition has_own :: "store \<Rightarrow> val \<Rightarrow> string \<Rightarrow> bool" where
  "has_own h v k = (own_of h v k \<noteq> None)"

text \<open>Assignment to a key of a cell, other than the \<^verbatim>\<open>length\<close> of an array.\<close>

definition put_cell :: "cell \<Rightarrow> string \<Rightarrow> val \<Rightarrow> cell" where
  "put_cell c k v =
     (case c of
        Obj ps \<Rightarrow> Obj (AList.update k v ps)
      | Arr xs ps \<Rightarrow>
          (case array_index k of
             Some i \<Rightarrow>
               if i < length xs then Arr (xs[i := v]) ps
               else Arr (xs @ replicate (i - length xs) Undefined @ [v]) ps
           | None \<Rightarrow> Arr xs (AList.update k v ps)))"

text \<open>
  \<^verbatim>\<open>target[k] = v\<close> in strict mode (the file starts with \<^verbatim>\<open>'use strict'\<close>): a
  \<^verbatim>\<open>TypeError\<close> on \<^verbatim>\<open>undefined\<close>, \<^verbatim>\<open>null\<close> and on a primitive. Writing the
  \<^verbatim>\<open>length\<close> of an array resizes it for a number in range and raises a
  \<^verbatim>\<open>RangeError\<close> for another number; the coercion of a value that is not a number is
  not modelled.
\<close>

definition assign :: "store \<Rightarrow> val \<Rightarrow> string \<Rightarrow> val \<Rightarrow> err + store" where
  "assign h target k v =
     (case target of
        Ref a \<Rightarrow>
          if a < length h then
            (case h ! a of
               Arr xs ps \<Rightarrow>
                 if k = ''length'' then
                   (case v of
                      Num n \<Rightarrow>
                        if 0 \<le> n \<and> n < 4294967296
                        then Inr (h[a := Arr (take (nat n) xs @ replicate (nat n - length xs) Undefined) ps])
                        else Inl RangeError
                    | _ \<Rightarrow> Inl Unmodelled)
                 else Inr (h[a := put_cell (h ! a) k v])
             | Obj ps \<Rightarrow> Inr (h[a := put_cell (h ! a) k v]))
          else Inl Unmodelled
      | _ \<Rightarrow> Inl TypeError)"

definition alloc :: "store \<Rightarrow> cell \<Rightarrow> store \<times> val" where
  "alloc h c = (h @ [c], Ref (length h))"

section \<open>The lodash functions the action calls\<close>

text \<open>
  \<^verbatim>\<open>_.set\<close>, \<^verbatim>\<open>_.get\<close>, \<^verbatim>\<open>_.has\<close> and \<^verbatim>\<open>_.find\<close> belong to the lodash
  library. Their walk along a path is modelled here from lodash 4.17
  (\<^verbatim>\<open>baseSet\<close>, \<^verbatim>\<open>baseGet\<close>, \<^verbatim>\<open>hasPath\<close> with \<^verbatim>\<open>baseHas\<close>); the grammar that
  turns a path string into its keys (\<^verbatim>\<open>castPath\<close>) is a parameter of the
  environment below. A write that raises leaves the writes made before it in place, so
  an exception comes with the store in which it was raised; a container created for a
  write that raises is referenced nowhere and is left out.
\<close>

definition unsafe_key :: "string \<Rightarrow> bool" where
  "unsafe_key k = (k = ''__proto__'' \<or> k = ''constructor'' \<or> k = ''prototype'')"

fun baseSet :: "store \<Rightarrow> addr \<Rightarrow> string list \<Rightarrow> val \<Rightarrow> err \<times> store + store" where
  "baseSet h a [] v = Inr h"
| "baseSet h a [k] v =
     (if unsafe_key k then Inr h
      else (case assign h (Ref a) k v of Inl e \<Rightarrow> Inl (e, h) | Inr h' \<Rightarrow> Inr h'))"
| "baseSet h a (k # k' # ks) v =
     (if unsafe_key k then Inr h
      else (case get_member h (Ref a) k of
              Ref p \<Rightarrow> baseSet h p (k' # ks) v
            | _ \<Rightarrow>
                (case assign (h @ [if is_index k' then Arr [] [] else Obj []]) (Ref a) k (Ref (length h)) of
                   Inl e \<Rightarrow> Inl (e, h)
                 | Inr h' \<Rightarrow> baseSet h' (length h) (k' # ks) v)))"

fun baseGet :: "store \<Rightarrow> val \<Rightarrow> string list \<Rightarrow> val" where
  "baseGet h v [] = v"
| "baseGet h v (k # ks) = (if nullish v then Undefined else baseGet h (get_member h v k) ks)"

fun hasPath :: "store \<Rightarrow> val \<Rightarrow> string list \<Rightarrow> bool" where
  "hasPath h v [] = True"
| "hasPath h v (k # ks) = (\<not> nullish v \<and> has_own h v k \<and> hasPath h (get_member h v k) ks)"

text \<open>
  \<^verbatim>\<open>_.find(collection, {type: 'resource', resource: rid})\<close>: the first element whose
  \<^verbatim>\<open>type\<close> and \<^verbatim>\<open>resource\<close> are strictly equal to the two strings.
\<close>

definition matches_external :: "store \<Rightarrow> string \<Rightarrow> val \<Rightarrow> bool" where
  "matches_external h rid x =
     (\<not> nullish x \<and> get_member h x ''type'' = Str ''resource''
      \<and> get_member h x ''resource'' = Str rid)"

definition first_match :: "store \<Rightarrow> string \<Rightarrow> val list \<Rightarrow> val" where
  "first_match h rid xs =
     (case List.find (matches_external h rid) xs of Some x \<Rightarrow> x | None \<Rightarrow> Undefined)"

definition lodash_find :: "store \<Rightarrow> val \<Rightarrow> string \<Rightarrow> val" where
  "lodash_find h coll rid =
     (case coll of
        Ref a \<Rightarrow>
          if a < length h then
            (case h ! a of
               Arr xs ps \<Rightarrow> first_match h rid xs
             | Obj ps \<Rightarrow> first_match h rid (map snd ps))
          else Undefined
      | _ \<Rightarrow> Undefined)"

section \<open>Requests, responses, settings and collaborators\<close>

text \<open>
  The fields of the request that the action reads or writes. \<open>skipSave\<close> and
  \<open>isTransformedData\<close> hold the truthiness of the JavaScript members;
  \<open>skipResource\<close> is \<open>None\<close> while the member is absent; \<open>http_method\<close> is
  \<^verbatim>\<open>req.method\<close>.
\<close>

record request =
  skipSave :: bool
  body :: val
  http_method :: string
  skipResource :: "bool option"
  isTransformedData :: bool
  permissionsChecked :: bool
  noResponse :: bool
  formId :: "string option"
  subId :: "val option"
  params_formId :: "string option"
  params_submissionId :: "val option"
  url :: string

text \<open>\<open>res_resource\<close> is \<^verbatim>\<open>res.resource.item\<close> when \<^verbatim>\<open>res.resource\<close> is set.\<close>

record response =
  res_resource :: "val option"

text \<open>
  \<^verbatim>\<open>this.settings\<close>. A setting that is absent and one that is the empty string are
  both falsy and the action does not tell them apart, so each is a string.
  \<open>sfields\<close> is \<^verbatim>\<open>settings.fields\<close> (the record package keeps the name \<open>fields\<close> for
  itself): it lists the mapping in the order \<^verbatim>\<open>_.each\<close> enumerates it, each pair a
  target key and its source field.
\<close>

record settings =
  resource :: string
  property :: string
  sfields :: "(string \<times> string) list"
  transform :: string

datatype event =
    LoadForm string
  | LoadSubmission val val
  | Evaluate string val val
  | Dispatch string string request
  | Logged err
  | Debug err

type_synonym handler = "store \<Rightarrow> request \<Rightarrow> response \<Rightarrow> store \<times> response \<times> err option"

text \<open>
  The collaborators, none of which is in the action's file: lodash's path grammar,
  the \<^verbatim>\<open>toString\<close> of an object (an ObjectId prints its hexadecimal digits),
  \<^verbatim>\<open>util.createSubRequest\<close>, the form and submission cache, the handlers registered
  under \<^verbatim>\<open>router.resourcejs[url][method]\<close>, and the sandbox's \<^verbatim>\<open>evaluate\<close>
  (script, the \<^verbatim>\<open>submission\<close> binding, the \<^verbatim>\<open>data\<close> binding). A collaborator that
  throws or rejects returns \<open>Inl\<close>; a handler returns the error it passes to its
  callback. \<open>calls_back_in_turn\<close> tells whether the handlers call that callback before
  they return, or in a later turn of the event loop as a handler that waits for the
  database does.
\<close>

record env =
  castPath :: "store \<Rightarrow> val \<Rightarrow> string \<Rightarrow> string list"
  objToString :: "store \<Rightarrow> addr \<Rightarrow> string"
  createSubRequest :: "request \<Rightarrow> request option"
  cache_loadForm :: "store \<Rightarrow> request \<Rightarrow> string \<Rightarrow> err + store \<times> val"
  cache_loadSubmission :: "store \<Rightarrow> request \<Rightarrow> val \<Rightarrow> val \<Rightarrow> err + store \<times> val"
  resourcejs :: "string \<Rightarrow> (string \<Rightarrow> handler option) option"
  evaluate :: "store \<Rightarrow> string \<Rightarrow> val \<Rightarrow> val \<Rightarrow> err + store \<times> val"
  calls_back_in_turn :: bool

record state =
  heap :: store
  req :: request
  res :: response
  trace :: "event list"

text \<open>
  A stage calls its callback without an error (\<open>Done\<close>) or with one (\<open>Failed\<close>), or
  an exception escapes it (\<open>Thrown\<close>) and no callback is called.
\<close>

datatype 'a step = Done 'a | Failed err | Thrown err

datatype outcome = Next "err option" | Uncaught err

definition emit :: "event \<Rightarrow> state \<Rightarrow> state" where
  "emit e st = st\<lparr>trace := trace st @ [e]\<rparr>"

subsection \<open>Strings\<close>

definition toLowerCase :: "string \<Rightarrow> string" where
  "toLowerCase s =
     map (\<lambda>c. let n = (of_char c :: nat) in if 65 \<le> n \<and> n \<le> 90 then char_of (n + 32) else c) s"

definition toUpperCase :: "string \<Rightarrow> string" where
  "toUpperCase s =
     map (\<lambda>c. let n = (of_char c :: nat) in if 97 \<le> n \<and> n \<le> 122 then char_of (n - 32) else c) s"

fun string_of_nat :: "nat \<Rightarrow> string" where
  "string_of_nat n =
     (if n < 10 then [char_of (48 + n)]
      else string_of_nat (n div 10) @ [char_of (48 + n mod 10)])"

text \<open>\<^verbatim>\<open>v.toString()\<close> for a value that is neither \<^verbatim>\<open>undefined\<close> nor \<^verbatim>\<open>null\<close>.\<close>

definition toString :: "env \<Rightarrow> store \<Rightarrow> val \<Rightarrow> string" where
  "toString E h v =
     (case v of
        Str s \<Rightarrow> s
      | Num n \<Rightarrow> (if n < 0 then CHR ''-'' # string_of_nat (nat (- n)) else string_of_nat (nat n))
      | Bool b \<Rightarrow> (if b then ''true'' else ''false'')
      | Ref a \<Rightarrow> objToString E h a
      | _ \<Rightarrow> [])"

subsection \<open>lodash on path strings\<close>

definition lodash_set :: "env \<Rightarrow> store \<Rightarrow> val \<Rightarrow> string \<Rightarrow> val \<Rightarrow> err \<times> store + store" where
  "lodash_set E h object path v =
     (case object of
        Ref a \<Rightarrow> baseSet h a (castPath E h object path) v
      | _ \<Rightarrow> Inr h)"

definition lodash_get :: "env \<Rightarrow> store \<Rightarrow> val \<Rightarrow> string \<Rightarrow> val" where
  "lodash_get E h object path =
     (let ks = castPath E h object path in if ks = [] then Undefined else baseGet h object ks)"

definition lodash_has :: "env \<Rightarrow> store \<Rightarrow> val \<Rightarrow> string \<Rightarrow> bool" where
  "lodash_has E h object path =
     (let ks = castPath E h object path in ks \<noteq> [] \<and> hasPath h object ks)"

text \<open>\<^verbatim>\<open>array.push(v)\<close>; a value that is not an array has no \<^verbatim>\<open>push\<close>.\<close>

definition push :: "store \<Rightarrow> val \<Rightarrow> val \<Rightarrow> err + store" where
  "push h array v =
     (case array of
        Ref a \<Rightarrow>
          if a < length h then
            (case h ! a of
               Arr xs ps \<Rightarrow> Inr (h[a := Arr (xs @ [v]) ps])
             | Obj ps \<Rightarrow> Inl TypeError)
          else Inl Unmodelled
      | _ \<Rightarrow> Inl TypeError)"

section \<open>The action: \<^verbatim>\<open>SaveSubmission.resolve\<close>\<close>

text \<open>\<^verbatim>\<open>(res.resource && res.resource.item)\<close>, when truthy.\<close>

definition saved_item :: "response \<Rightarrow> val option" where
  "saved_item r =
     (case res_resource r of
        Some item \<Rightarrow> if truthy item then Some item else None
      | None \<Rightarrow> None)"

subsection \<open>\<^verbatim>\<open>updateSubmission\<close> (lines 192 to 224)\<close>

text \<open>
  The body of the \<^verbatim>\<open>_.each\<close> loop over \<^verbatim>\<open>settings.fields\<close>, for one
  \<^verbatim>\<open>(field, key)\<close>. \<^verbatim>\<open>submission.data\<close> and \<^verbatim>\<open>req.body.data\<close> are read again at
  every turn, as the source does.
\<close>

definition merge_field ::
  "env \<Rightarrow> val \<Rightarrow> val \<Rightarrow> string \<times> string \<Rightarrow> store \<Rightarrow> err \<times> store + store" where
  "merge_field E reqbody submission kf h =
     (case kf of
        (key, field) \<Rightarrow>
          if field = ''data''
          then lodash_set E h (get_member h submission ''data'') key (get_member h reqbody ''data'')
          else if lodash_has E h (get_member h reqbody ''data'') field
          then lodash_set E h (get_member h submission ''data'') key
                 (lodash_get E h (get_member h reqbody ''data'') field)
          else Inr h)"

fun merge_fields ::
  "env \<Rightarrow> val \<Rightarrow> val \<Rightarrow> (string \<times> string) list \<Rightarrow> store \<Rightarrow> err \<times> store + store" where
  "merge_fields E reqbody submission [] h = Inr h"
| "merge_fields E reqbody submission (kf # rest) h =
     (case merge_field E reqbody submission kf h of
        Inl x \<Rightarrow> Inl x
      | Inr h' \<Rightarrow> merge_fields E reqbody submission rest h')"

text \<open>The template literal of line 209.\<close>

definition script :: "string \<Rightarrow> string" where
  "script t = ''data=submission.data;'' @ [CHR 0x0A] @ t @ [CHR 0x0A] @ ''data;''"

text \<open>
  The \<^verbatim>\<open>try\<close> block of lines 207 to 220: an exception of the evaluator, or of the
  assignment after it, is caught and only passed to \<^verbatim>\<open>debug\<close>. What is caught is
  taken to be an error object, whose \<^verbatim>\<open>message\<close> line 219 can read; the sandbox is
  not part of the repository, and a rejection with \<^verbatim>\<open>undefined\<close> or \<^verbatim>\<open>null\<close>,
  on which that read would itself throw, is not modelled.
\<close>

definition run_transform :: "env \<Rightarrow> settings \<Rightarrow> val \<Rightarrow> state \<Rightarrow> state" where
  "run_transform E S submission st =
     (let bsub = (case saved_item (res st) of Some item \<Rightarrow> item | None \<Rightarrow> body (req st));
          bdata = get_member (heap st) submission ''data'';
          st1 = emit (Evaluate (script (transform S)) bsub bdata) st
      in case evaluate E (heap st) (script (transform S)) bsub bdata of
           Inl e \<Rightarrow> emit (Debug e) st1
         | Inr (h', newData) \<Rightarrow>
             (case assign h' submission ''data'' newData of
                Inl e \<Rightarrow> emit (Debug e) (st1\<lparr>heap := h'\<rparr>)
              | Inr h'' \<Rightarrow> st1\<lparr>heap := h'', req := (req st1)\<lparr>isTransformedData := True\<rparr>\<rparr>))"

text \<open>
  Lines 193 and 194: the defaults of the submission and of its \<^verbatim>\<open>data\<close>. The result
  is the submission and the store, or the exception of the assignment of line 194.
\<close>

definition defaults :: "store \<Rightarrow> val \<Rightarrow> err \<times> store + val \<times> store" where
  "defaults h submission0 =
     (let (h1, submission) =
            (if truthy submission0 then (h, submission0) else alloc h (Obj []));
          d = get_member h1 submission ''data'';
          (h2, d') = (if truthy d then (h1, d) else alloc h1 (Obj []))
      in case assign h2 submission ''data'' d' of
           Inl e \<Rightarrow> Inl (e, h2)
         | Inr h3 \<Rightarrow> Inr (submission, h3))"

text \<open>
  Lines 193 to 204: the defaults, then the loop over \<^verbatim>\<open>settings.fields\<close>. The result
  is the submission and the store, or the exception that a write raised with the store
  in which it was raised.
\<close>

definition merge_stage :: "env \<Rightarrow> settings \<Rightarrow> val \<Rightarrow> val \<Rightarrow> store \<Rightarrow> err \<times> store + val \<times> store" where
  "merge_stage E S reqbody submission0 h =
     (case defaults h submission0 of
        Inl x \<Rightarrow> Inl x
      | Inr (submission, h3) \<Rightarrow>
          (case merge_fields E reqbody submission (sfields S) h3 of
             Inl x \<Rightarrow> Inl x
           | Inr h4 \<Rightarrow> Inr (submission, h4)))"

text \<open>
  \<open>Done\<close> carries the submission returned. An exception of the merge escapes the
  function.
\<close>

definition updateSubmission :: "env \<Rightarrow> settings \<Rightarrow> val \<Rightarrow> state \<Rightarrow> val step \<times> state" where
  "updateSubmission E S submission0 st =
     (case merge_stage E S (body (req st)) submission0 (heap st) of
        Inl (e, h) \<Rightarrow> (Thrown e, st\<lparr>heap := h\<rparr>)
      | Inr (submission, h4) \<Rightarrow>
          if transform S \<noteq> []
          then (Done submission, run_transform E S submission (st\<lparr>heap := h4\<rparr>))
          else (Done submission, st\<lparr>heap := h4\<rparr>))"

subsection \<open>\<^verbatim>\<open>loadResource\<close> (lines 145 to 155)\<close>

definition loadResource :: "env \<Rightarrow> settings \<Rightarrow> state \<Rightarrow> val step \<times> state" where
  "loadResource E S st =
     (let st1 = emit (LoadForm (resource S)) st
      in case cache_loadForm E (heap st) (req st) (resource S) of
           Inl e \<Rightarrow> (Failed e, emit (Logged EFORMLOAD) st1)
         | Inr (h', form) \<Rightarrow> (Done form, st1\<lparr>heap := h'\<rparr>))"

subsection \<open>\<^verbatim>\<open>loadSubmission\<close> (lines 232 to 268)\<close>

text \<open>
  The \<^verbatim>\<open>try\<close> block of lines 246 to 263. \<open>Done\<close> carries \<^verbatim>\<open>cache.submission\<close>,
  \<open>Undefined\<close> while it is not set.
\<close>

definition load_linked :: "env \<Rightarrow> settings \<Rightarrow> state \<Rightarrow> val step \<times> state" where
  "load_linked E S st =
     (let form = get_member (heap st) (body (req st)) ''form'';
          sid = get_member (heap st) (body (req st)) ''_id'';
          st1 = emit (LoadSubmission form sid) st
      in case cache_loadSubmission E (heap st) (req st) form sid of
           Inl e \<Rightarrow> (Thrown e, st1)
         | Inr (h1, currentSubmission) \<Rightarrow>
             if nullish currentSubmission then (Thrown TypeError, st1\<lparr>heap := h1\<rparr>)
             else
               (let external =
                      lodash_find h1 (get_member h1 currentSubmission ''externalIds'') (resource S)
                in if \<not> truthy external then (Done Undefined, st1\<lparr>heap := h1\<rparr>)
                   else
                     (let eid = get_member h1 external ''id'';
                          st2 = emit (LoadSubmission (Str (resource S)) eid) (st1\<lparr>heap := h1\<rparr>)
                      in case cache_loadSubmission E h1 (req st) (Str (resource S)) eid of
                           Inl e \<Rightarrow> (Thrown e, st2)
                         | Inr (h2, submission) \<Rightarrow>
                             if \<not> truthy submission then (Done Undefined, st2\<lparr>heap := h2\<rparr>)
                             else updateSubmission E S submission (st2\<lparr>heap := h2\<rparr>))))"

text \<open>The \<^verbatim>\<open>catch\<close> of lines 264 to 267.\<close>

definition catch_ESUBLOAD :: "val step \<times> state \<Rightarrow> val step \<times> state" where
  "catch_ESUBLOAD r =
     (case r of
        (Thrown e, st) \<Rightarrow> (Failed e, emit (Logged ESUBLOAD) st)
      | _ \<Rightarrow> r)"

text \<open>
  The object literal \<^verbatim>\<open>{data: {}, roles: []}\<close> of line 233. Only the branch of line
  237 uses it, so it is allocated there.
\<close>

definition new_submission :: "store \<Rightarrow> store \<times> val" where
  "new_submission h =
     (h @ [Obj [], Arr [] [], Obj [(''data'', Ref (length h)), (''roles'', Ref (length h + 1))]],
      Ref (length h + 2))"

definition loadSubmission :: "env \<Rightarrow> settings \<Rightarrow> state \<Rightarrow> val step \<times> state" where
  "loadSubmission E S st =
     (if http_method (req st) \<noteq> ''PUT''
      then (case new_submission (heap st) of
              (h, submission) \<Rightarrow> updateSubmission E S submission (st\<lparr>heap := h\<rparr>))
      else if \<not> truthy (get_member (heap st) (body (req st)) ''_id'')
              \<or> \<not> truthy (get_member (heap st) (body (req st)) ''form'')
      then (Done Undefined, st)
      else catch_ESUBLOAD (load_linked E S st))"

subsection \<open>\<^verbatim>\<open>saveToResource\<close> (lines 79 to 139)\<close>

definition lookup_handler :: "env \<Rightarrow> string \<Rightarrow> string \<Rightarrow> handler option" where
  "lookup_handler E u m = (case resourcejs E u of Some ms \<Rightarrow> ms m | None \<Rightarrow> None)"

text \<open>Lines 104 to 110: the route of the child request, from the lowercased method.\<close>

definition child_url :: "string \<Rightarrow> string" where
  "child_url m =
     (if m = ''put'' then ''/form/:formId/submission/:submissionId''
      else ''/form/:formId/submission'')"

text \<open>
  Lines 99 to 123: the fields written on the clone \<open>c\<close> of the request \<open>r\<close>, for the
  loaded form and the child submission.
\<close>

definition build_childReq :: "env \<Rightarrow> store \<Rightarrow> request \<Rightarrow> request \<Rightarrow> val \<Rightarrow> val \<Rightarrow> request" where
  "build_childReq E h r c form child =
     (let fid = toString E h (get_member h form ''_id'');
          c1 = c\<lparr>permissionsChecked := True, noResponse := True, body := child,
                 formId := Some fid, params_formId := Some fid\<rparr>;
          m = toLowerCase (http_method r);
          cid = get_member h child ''_id'';
          c2 = (if m = ''put'' then c1\<lparr>subId := Some cid, params_submissionId := Some cid\<rparr> else c1)
      in c2\<lparr>url := child_url m, http_method := toUpperCase m\<rparr>)"

text \<open>Lines 124 to 138: the call of the registered handler, or \<^verbatim>\<open>ENOHANDLER\<close>.\<close>

definition dispatch :: "env \<Rightarrow> string \<Rightarrow> string \<Rightarrow> request \<Rightarrow> state \<Rightarrow> unit step \<times> state" where
  "dispatch E u m childReq st =
     (case lookup_handler E u m of
        Some handle \<Rightarrow>
          (case handle (heap st) childReq (res st) of
             (h', res', e) \<Rightarrow>
               (let st' = (emit (Dispatch u m childReq) st)\<lparr>heap := h', res := res'\<rparr>
                in case e of
                     None \<Rightarrow> (Done (), st')
                   | Some x \<Rightarrow> (Failed x, st')))
      | None \<Rightarrow> (Failed ENOHANDLER, emit (Logged ENOHANDLER) st))"

definition saveToResource :: "env \<Rightarrow> val \<Rightarrow> val \<Rightarrow> state \<Rightarrow> unit step \<times> state" where
  "saveToResource E form child st =
     (if \<not> truthy child then (Done (), st)
      else
        (case createSubRequest E (req st) of
           None \<Rightarrow> (Failed EREQRECUR, emit (Logged EREQRECUR) st)
         | Some c \<Rightarrow>
             if nullish form \<or> nullish (get_member (heap st) form ''_id'')
             then (Thrown TypeError, st)
             else if toLowerCase (http_method (req st)) = ''put''
                     \<and> \<not> truthy (get_member (heap st) child ''_id'')
             then (Failed ENOIDP, emit (Logged ENOIDP) st)
             else dispatch E (child_url (toLowerCase (http_method (req st))))
                    (toLowerCase (http_method (req st)))
                    (build_childReq E (heap st) (req st) c form child) st))"

subsection \<open>\<^verbatim>\<open>assignResource\<close> (lines 162 to 183)\<close>

text \<open>Line 174: \<^verbatim>\<open>req.body.externalIds = req.body.externalIds || []\<close>.\<close>

definition ensure_externalIds :: "store \<Rightarrow> val \<Rightarrow> err + store" where
  "ensure_externalIds h reqbody =
     (let ext = get_member h reqbody ''externalIds''
      in if truthy ext then assign h reqbody ''externalIds'' ext
         else assign (h @ [Arr [] []]) reqbody ''externalIds'' (Ref (length h)))"

text \<open>Lines 175 to 179: the record is pushed onto \<^verbatim>\<open>req.body.externalIds\<close>.\<close>

definition saveExternalId :: "env \<Rightarrow> settings \<Rightarrow> val \<Rightarrow> val \<Rightarrow> store \<Rightarrow> err + store" where
  "saveExternalId E S item reqbody h =
     (case ensure_externalIds h reqbody of
        Inl e \<Rightarrow> Inl e
      | Inr h2 \<Rightarrow>
          if nullish (get_member h2 reqbody ''externalIds'')
             \<or> nullish (get_member h2 item ''_id'')
          then Inl TypeError
          else push
                 (h2 @ [Obj [(''type'', Str ''resource''),
                             (''resource'', Str (resource S)),
                             (''id'', Str (toString E h2 (get_member h2 item ''_id'')))]])
                 (get_member h2 reqbody ''externalIds'')
                 (Ref (length h2)))"

definition assignResource :: "env \<Rightarrow> settings \<Rightarrow> val \<Rightarrow> state \<Rightarrow> unit step \<times> state" where
  "assignResource E S cache_submission st =
     (let linked = (case saved_item (res st) of Some item \<Rightarrow> item | None \<Rightarrow> cache_submission)
      in case (if property S \<noteq> []
               then assign (heap st) (get_member (heap st) (body (req st)) ''data'') (property S) linked
               else Inr (heap st)) of
           Inl e \<Rightarrow> (Thrown e, st)
         | Inr h1 \<Rightarrow>
             (case saved_item (res st) of
                Some item \<Rightarrow>
                  if http_method (req st) = ''POST''
                  then (case saveExternalId E S item (body (req st)) h1 of
                          Inl e \<Rightarrow> (Thrown e, st\<lparr>heap := h1\<rparr>)
                        | Inr h2 \<Rightarrow> (Done (), st\<lparr>heap := h2\<rparr>))
                  else (Done (), st\<lparr>heap := h1\<rparr>)
              | None \<Rightarrow> (Done (), st\<lparr>heap := h1\<rparr>)))"

subsection \<open>\<^verbatim>\<open>resolve\<close> (lines 61 to 290)\<close>

text \<open>
  The two \<^verbatim>\<open>async.series\<close> of lines 272 to 289, after the gates of lines 63 to 73.
  \<open>Next e\<close> is the call \<^verbatim>\<open>next(e)\<close>; \<open>Uncaught\<close> is an exception that escapes a stage,
  after which the action calls \<^verbatim>\<open>next\<close> no more. \<open>save_and_assign\<close> is the second
  series, lines 285 to 288.
\<close>

definition save_and_assign :: "env \<Rightarrow> settings \<Rightarrow> val \<Rightarrow> val \<Rightarrow> state \<Rightarrow> outcome \<times> state" where
  "save_and_assign E S form submission st =
     (case saveToResource E form submission st of
        (Failed e, st1) \<Rightarrow> (Next (Some e), st1)
      | (Thrown e, st1) \<Rightarrow> (Uncaught e, st1)
      | (Done u, st1) \<Rightarrow>
          (case assignResource E S submission st1 of
             (Failed e, st2) \<Rightarrow> (Next (Some e), st2)
           | (Thrown e, st2) \<Rightarrow> (Uncaught e, st2)
           | (Done u2, st2) \<Rightarrow> (Next None, st2)))"

text \<open>
  The second series runs inside the callback of the first (lines 275 to 289), which
  \<^verbatim>\<open>loadSubmission\<close> calls at line 238 for a request other than PUT and, for PUT, at
  line 262 inside the \<^verbatim>\<open>try\<close> block of line 246. So on PUT an exception that escapes
  the second series in the turn of that call is caught at line 264: it is logged as
  \<^verbatim>\<open>ESUBLOAD\<close>, and line 266 calls the callback a second time, which
  \<^verbatim>\<open>async\<close> refuses by throwing \<^verbatim>\<open>Error('Callback was already called.')\<close>; that
  error escapes. An exception of \<^verbatim>\<open>saveToResource\<close> is raised in that turn; one of
  \<^verbatim>\<open>assignResource\<close> is when the handler called back before it returned.
\<close>

definition already_called :: err where
  "already_called = Raised ''Callback was already called.''"

definition caught_at_264 :: "env \<Rightarrow> val \<Rightarrow> val \<Rightarrow> state \<Rightarrow> bool" where
  "caught_at_264 E form submission st =
     (http_method (req st) = ''PUT''
      \<and> (calls_back_in_turn E
         \<or> (case fst (saveToResource E form submission st) of
               Thrown e \<Rightarrow> True
             | _ \<Rightarrow> False)))"

definition second_series :: "env \<Rightarrow> settings \<Rightarrow> val \<Rightarrow> val \<Rightarrow> state \<Rightarrow> outcome \<times> state" where
  "second_series E S form submission st =
     (case save_and_assign E S form submission st of
        (Uncaught e, st') \<Rightarrow>
          if caught_at_264 E form submission st
          then (Uncaught already_called, emit (Logged ESUBLOAD) st')
          else (Uncaught e, st')
      | (Next e, st') \<Rightarrow> (Next e, st'))"

definition load_and_save :: "env \<Rightarrow> settings \<Rightarrow> state \<Rightarrow> outcome \<times> state" where
  "load_and_save E S st =
     (case loadResource E S st of
        (Failed e, st1) \<Rightarrow> (Next (Some e), emit (Logged e) st1)
      | (Thrown e, st1) \<Rightarrow> (Uncaught e, st1)
      | (Done form, st1) \<Rightarrow>
          (case loadSubmission E S st1 of
             (Failed e, st2) \<Rightarrow> (Next (Some e), emit (Logged e) st2)
           | (Thrown e, st2) \<Rightarrow> (Uncaught e, st2)
           | (Done submission, st2) \<Rightarrow>
               if \<not> truthy submission then (Next None, st2)
               else second_series E S form submission st2))"

definition resolve :: "env \<Rightarrow> settings option \<Rightarrow> state \<Rightarrow> outcome \<times> state" where
  "resolve E this_settings st =
     (if skipSave (req st) \<or> \<not> truthy (body (req st))
         \<or> (http_method (req st) \<noteq> ''POST'' \<and> http_method (req st) \<noteq> ''PUT'' \<and> http_method (req st) \<noteq> ''PATCH'')
      then (Next None, st)
      else
        (let st1 = st\<lparr>req := (req st)\<lparr>skipResource := Some False\<rparr>\<rparr>
         in case this_settings of
              None \<Rightarrow> (Next None, st1)
            | Some S \<Rightarrow>
                if resource S = [] then (Next None, st1)
                else load_and_save E S (st1\<lparr>req := (req st1)\<lparr>skipResource := Some True\<rparr>\<rparr>)))"

section \<open>What a run did\<close>

fun is_dispatch :: "event \<Rightarrow> bool" where
  "is_dispatch (Dispatch u m r) = True"
| "is_dispatch e = False"

fun is_load :: "event \<Rightarrow> bool" where
  "is_load (LoadForm f) = True"
| "is_load (LoadSubmission f i) = True"
| "is_load e = False"

text \<open>The child saves and the loads of a run, in the order they were made.\<close>

definition dispatches :: "state \<Rightarrow> event list" where
  "dispatches st = filter is_dispatch (trace st)"

definition loads :: "state \<Rightarrow> event list" where
  "loads st = filter is_load (trace st)"

text \<open>
  The sequence that \<^verbatim>\<open>body.externalIds || []\<close> denotes, when it is an array or falsy.
\<close>

definition externalIds_of :: "store \<Rightarrow> val \<Rightarrow> val list option" where
  "externalIds_of h b =
     (case get_member h b ''externalIds'' of
        Ref a \<Rightarrow>
          if a < length h then (case h ! a of Arr xs ps \<Rightarrow> Some xs | Obj ps \<Rightarrow> None) else None
      | v \<Rightarrow> if truthy v then None else Some [])"

section \<open>A small world to run the action in\<close>

text \<open>
  The path grammar for keys separated by dots, which is lodash's reading of a path
  without brackets that is not itself a key of the object.
\<close>

fun split_dots :: "string \<Rightarrow> string \<Rightarrow> string list" where
  "split_dots acc [] = [rev acc]"
| "split_dots acc (c # cs) =
     (if c = CHR ''.'' then rev acc # split_dots [] cs else split_dots (c # acc) cs)"

text \<open>
  A handler that saves the child: it stores a new submission with the child's data and
  sets it as \<^verbatim>\<open>res.resource.item\<close>.
\<close>

definition save_handler :: handler where
  "save_handler h childReq r =
     (h @ [Obj [(''_id'', Str ''c1''), (''data'', get_member h (body childReq) ''data'')]],
      r\<lparr>res_resource := Some (Ref (length h))\<rparr>, None)"

text \<open>
  The clone is the request itself, every form loads, no submission is found, creation
  is the only registered route, its handler calls back before it returns, and the
  sandbox throws.
\<close>

definition ex_env :: env where
  "ex_env = \<lparr>
     castPath = (\<lambda>h object path. split_dots [] path),
     objToString = (\<lambda>h a. ''[object Object]''),
     createSubRequest = (\<lambda>r. Some r),
     cache_loadForm = (\<lambda>h r rid. Inr (h @ [Obj [(''_id'', Str rid)]], Ref (length h))),
     cache_loadSubmission = (\<lambda>h r form sid. Inr (h, Null)),
     resourcejs = (\<lambda>u. if u = ''/form/:formId/submission''
                        then Some (\<lambda>m. if m = ''post'' then Some save_handler else None)
                        else None),
     evaluate = (\<lambda>h s b d. Inl (Raised ''boom'')),
     calls_back_in_turn = True\<rparr>"

text \<open>The body \<^verbatim>\<open>{data: {name: 'Ann', address: {city: 'Oslo'}}}\<close> at address 2.\<close>

definition ex_heap :: store where
  "ex_heap = [Obj [(''name'', Str ''Ann''), (''address'', Ref 1)],
              Obj [(''city'', Str ''Oslo'')],
              Obj [(''data'', Ref 0)]]"

definition ex_req :: request where
  "ex_req = \<lparr>skipSave = False, body = Ref 2, http_method = ''POST'', skipResource = None,
     isTransformedData = False, permissionsChecked = False, noResponse = False,
     formId = Some ''f1'', subId = None, params_formId = Some ''f1'',
     params_submissionId = None, url = ''/form/:formId/submission''\<rparr>"

definition ex_state :: state where
  "ex_state = \<lparr>heap = ex_heap, req = ex_req, res = \<lparr>res_resource = None\<rparr>, trace = []\<rparr>"

definition ex_settings :: settings where
  "ex_settings = \<lparr>resource = ''r1'', property = ''linked'',
     sfields = [(''who'', ''name''), (''place.town'', ''address.city'')],
     transform = []\<rparr>"

text \<open>
  A world for updates. The body at address 2 carries \<^verbatim>\<open>_id\<close> and \<^verbatim>\<open>form\<close>; the stored
  primary submission at address 3 is linked to the child \<^verbatim>\<open>c1\<close> of resource \<^verbatim>\<open>r1\<close>,
  and the stored child at address 6 has no \<^verbatim>\<open>_id\<close>.
\<close>

definition ex_put_heap :: store where
  "ex_put_heap = [Obj [(''name'', Str ''Ann''), (''address'', Ref 1)],
                  Obj [(''city'', Str ''Oslo'')],
                  Obj [(''_id'', Str ''s1''), (''form'', Str ''f1''), (''data'', Ref 0)],
                  Obj [(''_id'', Str ''s1''), (''externalIds'', Ref 4)],
                  Arr [Ref 5] [],
                  Obj [(''type'', Str ''resource''), (''resource'', Str ''r1''), (''id'', Str ''c1'')],
                  Obj [(''data'', Ref 7)],
                  Obj []]"

definition ex_put_env :: env where
  "ex_put_env = ex_env\<lparr>cache_loadSubmission :=
     (\<lambda>h r form sid.
        if form = Str ''f1'' \<and> sid = Str ''s1'' then Inr (h, Ref 3)
        else if form = Str ''r1'' \<and> sid = Str ''c1'' then Inr (h, Ref 6)
        else Inr (h, Null))\<rparr>"

definition ex_put_state :: state where
  "ex_put_state = \<lparr>heap = ex_put_heap, req = ex_req\<lparr>http_method := ''PUT''\<rparr>,
     res = \<lparr>res_resource = None\<rparr>, trace = []\<rparr>"

text \<open>The same world with the saving handler registered for \<^verbatim>\<open>patch\<close> on the creation route.\<close>

definition ex_patch_env :: env where
  "ex_patch_env = ex_env\<lparr>resourcejs :=
     (\<lambda>u. if u = ''/form/:formId/submission''
          then Some (\<lambda>m. if m = ''patch'' then Some save_handler else None)
          else None)\<rparr>"

text \<open>
  A creation whose body already holds a record for the resource \<^verbatim>\<open>r1\<close>:
  \<^verbatim>\<open>{data: ..., externalIds: [{type: 'resource', resource: 'r1', id: 'c0'}]}\<close>.
\<close>

definition ex_linked_heap :: store where
  "ex_linked_heap = [Obj [(''name'', Str ''Ann''), (''address'', Ref 1)],
                     Obj [(''city'', Str ''Oslo'')],
                     Obj [(''data'', Ref 0), (''externalIds'', Ref 3)],
                     Arr [Ref 4] [],
                     Obj [(''type'', Str ''resource''), (''resource'', Str ''r1''), (''id'', Str ''c0'')]]"

definition ex_linked_state :: state where
  "ex_linked_state = \<lparr>heap = ex_linked_heap, req = ex_req,
     res = \<lparr>res_resource = None\<rparr>, trace = []\<rparr>"

text \<open>
  A sandbox for the scripts whose user part is blank: JavaScript evaluates
  \<^verbatim>\<open>data=submission.data;\<close>, a blank line and \<^verbatim>\<open>data;\<close> to the \<^verbatim>\<open>data\<close> member of
  the \<^verbatim>\<open>submission\<close> binding, whatever the \<^verbatim>\<open>data\<close> binding was. The copy that the
  isolate makes of the result is left out.
\<close>

definition blank_script_vm :: "store \<Rightarrow> string \<Rightarrow> val \<Rightarrow> val \<Rightarrow> err + store \<times> val" where
  "blank_script_vm h s submission data =
     (if length (script []) \<le> length s
         \<and> s = script (replicate (length s - length (script [])) (CHR '' ''))
         \<and> \<not> nullish submission
      then Inr (h, get_member h submission ''data'')
      else Inl Unmodelled)"

text \<open>
  The state in which the submission stage of a creation calls \<^verbatim>\<open>updateSubmission\<close>: the
  fresh child \<^verbatim>\<open>{data: {}, roles: []}\<close> is at address 5, its data at address 3.
\<close>

definition ex_child_state :: state where
  "ex_child_state = \<lparr>heap = ex_heap @ [Obj [], Arr [] [], Obj [(''data'', Ref 3), (''roles'', Ref 4)]],
     req = ex_req, res = \<lparr>res_resource = None\<rparr>, trace = []\<rparr>"

text \<open>No field mapping, and a user script of one space.\<close>

definition ex_blank_settings :: settings where
  "ex_blank_settings = \<lparr>resource = ''r1'', property = [], sfields = [], transform = '' ''\<rparr>"


text \<open>
  The walks of \<^verbatim>\<open>_.set\<close> that the merge theorem is about: the walk from the cell
  \<open>a\<close> along the keys meets no cell twice, nor a cell of \<open>seen\<close>, and writes no
  \<^verbatim>\<open>length\<close> of an array.
\<close>

definition writable :: "cell \<Rightarrow> string \<Rightarrow> bool" where
  "writable c k = (case c of Arr xs ps \<Rightarrow> k \<noteq> ''length'' | Obj ps \<Rightarrow> True)"

fun simple_path :: "store \<Rightarrow> addr list \<Rightarrow> addr \<Rightarrow> string list \<Rightarrow> bool" where
  "simple_path h seen a [] = True"
| "simple_path h seen a [k] = (a < length h \<and> a \<notin> set seen \<and> writable (h ! a) k)"
| "simple_path h seen a (k # k' # ks) =
     (a < length h \<and> a \<notin> set seen \<and> writable (h ! a) k
      \<and> (case get_member h (Ref a) k of
            Ref p \<Rightarrow> simple_path h (a # seen) p (k' # ks)
          | _ \<Rightarrow> True))"

text \<open>
  The outcome of that walk, described apart from the function. \<open>last_object\<close> is the
  last object that the path already leads through, with the keys that remain from
  there; \<open>new_cells\<close> are the containers created for the keys after the first of those,
  the first of them at address \<open>n\<close>, each holding the next one and the last one the
  value.
\<close>

fun last_object :: "store \<Rightarrow> addr \<Rightarrow> string list \<Rightarrow> addr \<times> string list" where
  "last_object h a [] = (a, [])"
| "last_object h a [k] = (a, [k])"
| "last_object h a (k # k' # ks) =
     (case get_member h (Ref a) k of
        Ref p \<Rightarrow> last_object h p (k' # ks)
      | _ \<Rightarrow> (a, k # k' # ks))"

fun new_cells :: "nat \<Rightarrow> string list \<Rightarrow> val \<Rightarrow> cell list" where
  "new_cells n [] v = []"
| "new_cells n [k] v = []"
| "new_cells n (k # k' # ks) v =
     put_cell (if is_index k' then Arr [] [] else Obj []) k' (if ks = [] then v else Ref (n + 1))
       # new_cells (n + 1) (k' # ks) v"

text \<open>
  An update whose stored child already holds a place: the child
  \<^verbatim>\<open>{data: {place: {street: 'Main'}}}\<close> is at address 5, its data at address 3.
\<close>

definition ex_stored_state :: state where
  "ex_stored_state =
     \<lparr>heap = ex_heap @ [Obj [(''place'', Ref 4)], Obj [(''street'', Str ''Main'')],
                        Obj [(''data'', Ref 3)]],
      req = ex_req\<lparr>http_method := ''PUT''\<rparr>, res = \<lparr>res_resource = None\<rparr>, trace = []\<rparr>"

section \<open>Properties\<close>

lemma truthy_not_nullish: "truthy v \<Longrightarrow> \<not> nullish v"
  by (cases v) auto

lemma lower_PUT: "toLowerCase ''PUT'' = ''put''"
  by code_simp

lemma lower_POST: "toLowerCase ''POST'' = ''post''"
  by code_simp


lemma dispatches_emit_Logged: "dispatches (emit (Logged e) st) = dispatches st"
  by (simp add: dispatches_def emit_def)

subsection \<open>The recursion guard\<close>

text \<open>
  Claim C1. Whenever the child-save stage runs on a child submission and
  \<^verbatim>\<open>util.createSubRequest\<close> returns nothing for the request, the stage calls back with
  \<^verbatim>\<open>EREQRECUR\<close>, the second series hands that code to \<^verbatim>\<open>next\<close>, and the only effect
  is the log entry: no handler is called. The clone function is arbitrary, so this holds
  whatever depth bound it enforces.
\<close>

theorem clone_failure_EREQRECUR:
  assumes "createSubRequest E (req st) = None" and "truthy child"
  shows "saveToResource E form child st = (Failed EREQRECUR, emit (Logged EREQRECUR) st)
         \<and> save_and_assign E S form child st = (Next (Some EREQRECUR), emit (Logged EREQRECUR) st)
         \<and> dispatches (emit (Logged EREQRECUR) st) = dispatches st"
  using assms by (simp add: saveToResource_def save_and_assign_def dispatches_emit_Logged)

theorem clone_failure_EREQRECUR_witness:
  "save_and_assign (ex_env\<lparr>createSubRequest := (\<lambda>r. None)\<rparr>) ex_settings (Ref 3) (Ref 6) ex_state
     = (Next (Some EREQRECUR), emit (Logged EREQRECUR) ex_state)"
proof -
  have a: "createSubRequest (ex_env\<lparr>createSubRequest := (\<lambda>r. None)\<rparr>) (req ex_state) = None"
    by simp
  have b: "truthy (Ref 6)"
    by simp
  from clone_failure_EREQRECUR [OF a b] show ?thesis
    by simp
qed

subsection \<open>The applicability gates\<close>

text \<open>
  Claim C8, as amended. When the request opts out of saving, has no body or has a
  method other than POST, PUT and PATCH, \<^verbatim>\<open>resolve\<close> calls \<^verbatim>\<open>next\<close> at once and the
  state is unchanged. When the request passes that gate and no resource is configured,
  \<^verbatim>\<open>resolve\<close> calls \<^verbatim>\<open>next\<close> at once as well, with nothing loaded and nothing saved, but
  it has first set \<^verbatim>\<open>req.skipResource\<close> to false (line 68).
\<close>

theorem pass_through:
  assumes "skipSave (req st) \<or> \<not> truthy (body (req st))
           \<or> (http_method (req st) \<noteq> ''POST'' \<and> http_method (req st) \<noteq> ''PUT'' \<and> http_method (req st) \<noteq> ''PATCH'')
           \<or> (case this_settings of None \<Rightarrow> True | Some S \<Rightarrow> resource S = [])"
  shows "resolve E this_settings st =
           (Next None,
            if skipSave (req st) \<or> \<not> truthy (body (req st))
               \<or> (http_method (req st) \<noteq> ''POST'' \<and> http_method (req st) \<noteq> ''PUT'' \<and> http_method (req st) \<noteq> ''PATCH'')
            then st else st\<lparr>req := (req st)\<lparr>skipResource := Some False\<rparr>\<rparr>)"
  using assms by (auto simp add: resolve_def Let_def split: option.splits)

theorem pass_through_witness:
  "resolve ex_env None (ex_state\<lparr>req := ex_req\<lparr>http_method := ''GET''\<rparr>\<rparr>)
     = (Next None, ex_state\<lparr>req := ex_req\<lparr>http_method := ''GET''\<rparr>\<rparr>)"
  using pass_through [of "ex_state\<lparr>req := ex_req\<lparr>http_method := ''GET''\<rparr>\<rparr>" None ex_env]
  by simp

text \<open>
  The claim as written fails: a POST request on which an earlier action has set
  \<^verbatim>\<open>skipResource\<close>, handled by an action with no settings, leaves with
  \<^verbatim>\<open>skipResource\<close> false.
\<close>

theorem pass_through_counterexample:
  "skipResource (req (ex_state\<lparr>req := ex_req\<lparr>skipResource := Some True\<rparr>\<rparr>)) = Some True
   \<and> skipResource (req (snd (resolve ex_env None (ex_state\<lparr>req := ex_req\<lparr>skipResource := Some True\<rparr>\<rparr>))))
       = Some False"
  by (simp add: resolve_def ex_state_def ex_req_def ex_heap_def)

subsection \<open>What the stages leave alone\<close>

lemma resolve_runs:
  assumes "\<not> skipSave (req st)" and "truthy (body (req st))"
    and "http_method (req st) = ''POST'' \<or> http_method (req st) = ''PUT'' \<or> http_method (req st) = ''PATCH''"
    and "resource S \<noteq> []"
  shows "resolve E (Some S) st = load_and_save E S (st\<lparr>req := (req st)\<lparr>skipResource := Some True\<rparr>\<rparr>)"
  using assms by (auto simp add: resolve_def Let_def)

lemma loadResource_frame:
  assumes "loadResource E S st = (r, st')"
  shows "req st' = req st \<and> res st' = res st \<and> dispatches st' = dispatches st"
  using assms
  by (auto simp add: loadResource_def Let_def emit_def dispatches_def split: sum.splits prod.splits)

lemma run_transform_frame:
  "res (run_transform E S sub st) = res st
   \<and> dispatches (run_transform E S sub st) = dispatches st
   \<and> (req (run_transform E S sub st) = req st
      \<or> req (run_transform E S sub st) = (req st)\<lparr>isTransformedData := True\<rparr>)"
  by (auto simp add: run_transform_def Let_def emit_def dispatches_def split: sum.splits prod.splits)

lemma updateSubmission_frame:
  assumes "updateSubmission E S sub st = (r, st')"
  shows "res st' = res st \<and> dispatches st' = dispatches st
         \<and> (req st' = req st \<or> req st' = (req st)\<lparr>isTransformedData := True\<rparr>)"
proof -
  have a: "res (st\<lparr>heap := h\<rparr>) = res st \<and> dispatches (st\<lparr>heap := h\<rparr>) = dispatches st
           \<and> req (st\<lparr>heap := h\<rparr>) = req st" for h
    by (simp add: dispatches_def)
  show ?thesis
    using assms run_transform_frame [of E S _ "st\<lparr>heap := _\<rparr>"]
    by (auto simp add: updateSubmission_def dispatches_def split: sum.splits prod.splits if_splits)
qed

lemma load_linked_frame:
  assumes "load_linked E S st = (r, st')"
  shows "res st' = res st \<and> dispatches st' = dispatches st
         \<and> (req st' = req st \<or> req st' = (req st)\<lparr>isTransformedData := True\<rparr>)"
  using assms
  apply (simp add: load_linked_def Let_def split: sum.splits prod.splits if_splits)
       apply (auto simp add: emit_def dispatches_def dest!: updateSubmission_frame)
  done

lemma loadSubmission_frame:
  assumes "loadSubmission E S st = (r, st')"
  shows "res st' = res st \<and> dispatches st' = dispatches st
         \<and> (req st' = req st \<or> req st' = (req st)\<lparr>isTransformedData := True\<rparr>)"
proof (cases "http_method (req st) \<noteq> ''PUT''")
  case True
  with assms have "updateSubmission E S (snd (new_submission (heap st)))
                     (st\<lparr>heap := fst (new_submission (heap st))\<rparr>) = (r, st')"
    by (simp add: loadSubmission_def split: prod.splits)
  from updateSubmission_frame [OF this] show ?thesis
    by (simp add: dispatches_def)
next
  case put: False
  show ?thesis
  proof (cases "\<not> truthy (get_member (heap st) (body (req st)) ''_id'')
                \<or> \<not> truthy (get_member (heap st) (body (req st)) ''form'')")
    case True
    with assms put have "st' = st"
      by (auto simp add: loadSubmission_def)
    then show ?thesis
      by simp
  next
    case False
    obtain r0 st0 where l: "load_linked E S st = (r0, st0)"
      by force
    from assms put False l have "st' = st0 \<or> st' = emit (Logged ESUBLOAD) st0"
      by (auto simp add: loadSubmission_def catch_ESUBLOAD_def split: step.splits)
    with load_linked_frame [OF l] show ?thesis
      by (auto simp add: emit_def dispatches_def)
  qed
qed
subsection \<open>Updates without a linked child\<close>

text \<open>
  Claim C7. On a PUT request that passes the gates and whose resource loads, the
  submission stage sets no child submission, and \<^verbatim>\<open>resolve\<close> calls \<^verbatim>\<open>next\<close> without
  an error and without a child save, in each of three cases: the body has no \<^verbatim>\<open>_id\<close>
  or no \<^verbatim>\<open>form\<close> (the claim's case of a body with neither is one of these); the
  primary submission loads and \<^verbatim>\<open>_.find\<close> finds no record of its \<^verbatim>\<open>externalIds\<close>
  for \<^verbatim>\<open>settings.resource\<close>; such a record is found and the load of the linked child
  returns a falsy value.
\<close>

theorem put_without_linked_child_is_noop:
  assumes gates: "\<not> skipSave (req st0)" "truthy (body (req st0))"
      "http_method (req st0) = ''PUT''" "resource S \<noteq> []"
    and form: "loadResource E S (st0\<lparr>req := (req st0)\<lparr>skipResource := Some True\<rparr>\<rparr>) = (Done form, st)"
    and nolink:
      "\<not> truthy (get_member (heap st) (body (req st)) ''_id'')
       \<or> \<not> truthy (get_member (heap st) (body (req st)) ''form'')
       \<or> (\<exists>h1 current.
             cache_loadSubmission E (heap st) (req st)
               (get_member (heap st) (body (req st)) ''form'')
               (get_member (heap st) (body (req st)) ''_id'') = Inr (h1, current)
             \<and> \<not> nullish current
             \<and> (\<not> truthy (lodash_find h1 (get_member h1 current ''externalIds'') (resource S))
                \<or> (\<exists>h2 child.
                      cache_loadSubmission E h1 (req st) (Str (resource S))
                        (get_member h1 (lodash_find h1 (get_member h1 current ''externalIds'') (resource S)) ''id'')
                        = Inr (h2, child)
                      \<and> \<not> truthy child)))"
  shows "\<exists>st'. loadSubmission E S st = (Done Undefined, st')
           \<and> resolve E (Some S) st0 = (Next None, st')
           \<and> dispatches st' = dispatches st0
           \<and> res st' = res st0
           \<and> req st' = (req st0)\<lparr>skipResource := Some True\<rparr>"
proof -
  from loadResource_frame [OF form]
  have fr: "req st = (req st0)\<lparr>skipResource := Some True\<rparr>" "res st = res st0"
    "dispatches st = dispatches st0"
    by (simp_all add: dispatches_def)
  from gates fr have put: "http_method (req st) = ''PUT''"
    by simp
  from nolink put have "\<exists>st'. loadSubmission E S st = (Done Undefined, st')"
    by (auto simp add: loadSubmission_def load_linked_def catch_ESUBLOAD_def Let_def)
  then obtain st' where l: "loadSubmission E S st = (Done Undefined, st')"
    by blast
  from nolink put l have rq: "req st' = req st"
    by (auto simp add: loadSubmission_def load_linked_def catch_ESUBLOAD_def Let_def emit_def
        split: if_splits)
  from gates have "resolve E (Some S) st0 = load_and_save E S (st0\<lparr>req := (req st0)\<lparr>skipResource := Some True\<rparr>\<rparr>)"
    by (intro resolve_runs) simp_all
  with form l have "resolve E (Some S) st0 = (Next None, st')"
    by (simp add: load_and_save_def)
  with l loadSubmission_frame [OF l] fr rq show ?thesis
    by simp
qed

theorem put_without_linked_child_is_noop_witness:
  "resolve ex_put_env (Some (ex_settings\<lparr>resource := ''r2''\<rparr>)) ex_put_state
     = (Next None,
        \<lparr>heap = ex_put_heap @ [Obj [(''_id'', Str ''r2'')]],
         req = ex_req\<lparr>http_method := ''PUT'', skipResource := Some True\<rparr>,
         res = \<lparr>res_resource = None\<rparr>,
         trace = [LoadForm ''r2'', LoadSubmission (Str ''f1'') (Str ''s1'')]\<rparr>)"
proof -
  let ?S = "ex_settings\<lparr>resource := ''r2''\<rparr>"
  let ?st = "\<lparr>heap = ex_put_heap @ [Obj [(''_id'', Str ''r2'')]],
              req = ex_req\<lparr>http_method := ''PUT'', skipResource := Some True\<rparr>,
              res = \<lparr>res_resource = None\<rparr>, trace = [LoadForm ''r2'']\<rparr>"
  have g1: "\<not> skipSave (req ex_put_state)"
    by (simp add: ex_put_state_def ex_req_def)
  have g2: "truthy (body (req ex_put_state))"
    by (simp add: ex_put_state_def ex_req_def)
  have g3: "http_method (req ex_put_state) = ''PUT''"
    by (simp add: ex_put_state_def)
  have g4: "resource ?S \<noteq> []"
    by simp
  have f: "loadResource ex_put_env ?S
             (ex_put_state\<lparr>req := (req ex_put_state)\<lparr>skipResource := Some True\<rparr>\<rparr>)
           = (Done (Ref 8), ?st)"
    by code_simp
  have n: "\<not> truthy (get_member (heap ?st) (body (req ?st)) ''_id'')
       \<or> \<not> truthy (get_member (heap ?st) (body (req ?st)) ''form'')
       \<or> (\<exists>h1 current.
             cache_loadSubmission ex_put_env (heap ?st) (req ?st)
               (get_member (heap ?st) (body (req ?st)) ''form'')
               (get_member (heap ?st) (body (req ?st)) ''_id'') = Inr (h1, current)
             \<and> \<not> nullish current
             \<and> (\<not> truthy (lodash_find h1 (get_member h1 current ''externalIds'') (resource ?S))
                \<or> (\<exists>h2 child.
                      cache_loadSubmission ex_put_env h1 (req ?st) (Str (resource ?S))
                        (get_member h1 (lodash_find h1 (get_member h1 current ''externalIds'') (resource ?S)) ''id'')
                        = Inr (h2, child)
                      \<and> \<not> truthy child)))"
  proof -
    have "cache_loadSubmission ex_put_env (heap ?st) (req ?st)
               (get_member (heap ?st) (body (req ?st)) ''form'')
               (get_member (heap ?st) (body (req ?st)) ''_id'') = Inr (heap ?st, Ref 3)"
      by code_simp
    moreover have "\<not> nullish (Ref 3)"
      by simp
    moreover have "\<not> truthy (lodash_find (heap ?st) (get_member (heap ?st) (Ref 3) ''externalIds'') (resource ?S))"
      by code_simp
    ultimately show ?thesis
      by blast
  qed
  from put_without_linked_child_is_noop [OF g1 g2 g3 g4 f n]
  obtain st' where a: "loadSubmission ex_put_env ?S ?st = (Done Undefined, st')"
    and b: "resolve ex_put_env (Some ?S) ex_put_state = (Next None, st')"
    by blast
  have "loadSubmission ex_put_env ?S ?st
          = (Done Undefined, ?st\<lparr>trace := [LoadForm ''r2'', LoadSubmission (Str ''f1'') (Str ''s1'')]\<rparr>)"
    by code_simp
  with a b show ?thesis
    by simp
qed

subsection \<open>Updates need the child's identity\<close>

lemma second_series_Failed:
  assumes "saveToResource E form child st = (Failed e, st')"
  shows "second_series E S form child st = (Next (Some e), st')"
  using assms by (simp add: second_series_def save_and_assign_def)

text \<open>
  Claim C2, as amended. Take a PUT request that passes the gates and whose resource
  loads. If the body of the primary request has no truthy \<^verbatim>\<open>_id\<close>, the submission stage
  moves on (line 242): it loads nothing and sets no child submission, and \<^verbatim>\<open>resolve\<close>
  calls \<^verbatim>\<open>next\<close> without an error and without a child save. \<^verbatim>\<open>ENOIDP\<close> is the error
  of the child save: if the submission stage hands on a child submission, the clone
  succeeds, the form has an \<^verbatim>\<open>_id\<close> and that child submission has no truthy \<^verbatim>\<open>_id\<close>
  (line 107), then \<^verbatim>\<open>resolve\<close> calls \<^verbatim>\<open>next\<close> with \<^verbatim>\<open>ENOIDP\<close>, the only further
  effect is the log entry, and no child save is dispatched.
\<close>

theorem put_without_id:
  assumes gates: "\<not> skipSave (req st0)" "truthy (body (req st0))"
      "http_method (req st0) = ''PUT''" "resource S \<noteq> []"
    and form: "loadResource E S (st0\<lparr>req := (req st0)\<lparr>skipResource := Some True\<rparr>\<rparr>) = (Done form, st1)"
  shows "(\<not> truthy (get_member (heap st1) (body (req st0)) ''_id'') \<longrightarrow>
            loadSubmission E S st1 = (Done Undefined, st1)
            \<and> resolve E (Some S) st0 = (Next None, st1)
            \<and> dispatches st1 = dispatches st0
            \<and> trace st1 = trace st0 @ [LoadForm (resource S)])
         \<and> (\<forall>child st2 c.
               loadSubmission E S st1 = (Done child, st2) \<and> truthy child
               \<and> createSubRequest E (req st2) = Some c
               \<and> \<not> nullish form \<and> \<not> nullish (get_member (heap st2) form ''_id'')
               \<and> \<not> truthy (get_member (heap st2) child ''_id'')
               \<longrightarrow> saveToResource E form child st2 = (Failed ENOIDP, emit (Logged ENOIDP) st2)
                   \<and> resolve E (Some S) st0 = (Next (Some ENOIDP), emit (Logged ENOIDP) st2)
                   \<and> dispatches (emit (Logged ENOIDP) st2) = dispatches st0)"
proof -
  from loadResource_frame [OF form] gates
  have fr: "req st1 = (req st0)\<lparr>skipResource := Some True\<rparr>" "dispatches st1 = dispatches st0"
    by (simp_all add: dispatches_def)
  from form have tr: "trace st1 = trace st0 @ [LoadForm (resource S)]"
    by (auto simp add: loadResource_def Let_def emit_def split: sum.splits prod.splits)
  from gates have run: "resolve E (Some S) st0
      = load_and_save E S (st0\<lparr>req := (req st0)\<lparr>skipResource := Some True\<rparr>\<rparr>)"
    by (intro resolve_runs) simp_all
  have a: "loadSubmission E S st1 = (Done Undefined, st1) \<and> resolve E (Some S) st0 = (Next None, st1)"
    if "\<not> truthy (get_member (heap st1) (body (req st0)) ''_id'')"
  proof -
    from that fr gates have l: "loadSubmission E S st1 = (Done Undefined, st1)"
      by (simp add: loadSubmission_def)
    with run form show ?thesis
      by (simp add: load_and_save_def)
  qed
  have b: "saveToResource E form child st2 = (Failed ENOIDP, emit (Logged ENOIDP) st2)
           \<and> resolve E (Some S) st0 = (Next (Some ENOIDP), emit (Logged ENOIDP) st2)
           \<and> dispatches (emit (Logged ENOIDP) st2) = dispatches st0"
    if sub: "loadSubmission E S st1 = (Done child, st2)" and child: "truthy child"
      and clone: "createSubRequest E (req st2) = Some c"
      and formid: "\<not> nullish form" "\<not> nullish (get_member (heap st2) form ''_id'')"
      and noid: "\<not> truthy (get_member (heap st2) child ''_id'')"
    for child st2 c
  proof -
    from loadSubmission_frame [OF sub] fr gates
    have put: "http_method (req st2) = ''PUT''" and d: "dispatches st2 = dispatches st0"
      by auto
    from put child clone formid noid
    have s: "saveToResource E form child st2 = (Failed ENOIDP, emit (Logged ENOIDP) st2)"
      by (simp add: saveToResource_def lower_PUT)
    from run form sub child second_series_Failed [OF s, of S]
    have "resolve E (Some S) st0 = (Next (Some ENOIDP), emit (Logged ENOIDP) st2)"
      by (simp add: load_and_save_def)
    with s d show ?thesis
      by (simp add: dispatches_emit_Logged)
  qed
  from a b fr tr show ?thesis
    by blast
qed

theorem put_without_id_witness:
  "resolve ex_env (Some ex_settings)
     (ex_state\<lparr>req := ex_req\<lparr>http_method := ''PUT''\<rparr>,
               heap := ex_heap[2 := Obj [(''form'', Str ''f1''), (''data'', Ref 0)]]\<rparr>)
     = (Next None,
        \<lparr>heap = ex_heap[2 := Obj [(''form'', Str ''f1''), (''data'', Ref 0)]]
                  @ [Obj [(''_id'', Str ''r1'')]],
         req = ex_req\<lparr>http_method := ''PUT'', skipResource := Some True\<rparr>,
         res = \<lparr>res_resource = None\<rparr>, trace = [LoadForm ''r1'']\<rparr>)
   \<and> fst (resolve ex_put_env (Some ex_settings) ex_put_state) = Next (Some ENOIDP)
   \<and> dispatches (snd (resolve ex_put_env (Some ex_settings) ex_put_state)) = []"
proof -
  let ?s0 = "ex_state\<lparr>req := ex_req\<lparr>http_method := ''PUT''\<rparr>,
                       heap := ex_heap[2 := Obj [(''form'', Str ''f1''), (''data'', Ref 0)]]\<rparr>"
  let ?s1 = "\<lparr>heap = ex_heap[2 := Obj [(''form'', Str ''f1''), (''data'', Ref 0)]]
                      @ [Obj [(''_id'', Str ''r1'')]],
              req = ex_req\<lparr>http_method := ''PUT'', skipResource := Some True\<rparr>,
              res = \<lparr>res_resource = None\<rparr>, trace = [LoadForm ''r1'']\<rparr>"
  let ?st1 = "\<lparr>heap = ex_put_heap @ [Obj [(''_id'', Str ''r1'')]],
               req = ex_req\<lparr>http_method := ''PUT'', skipResource := Some True\<rparr>,
               res = \<lparr>res_resource = None\<rparr>, trace = [LoadForm ''r1'']\<rparr>"
  have first: "resolve ex_env (Some ex_settings) ?s0 = (Next None, ?s1)"
  proof -
    have g1: "\<not> skipSave (req ?s0)"
      by (simp add: ex_req_def)
    have g2: "truthy (body (req ?s0))"
      by (simp add: ex_req_def)
    have g3: "http_method (req ?s0) = ''PUT''"
      by simp
    have g4: "resource ex_settings \<noteq> []"
      by (simp add: ex_settings_def)
    have f: "loadResource ex_env ex_settings (?s0\<lparr>req := (req ?s0)\<lparr>skipResource := Some True\<rparr>\<rparr>)
             = (Done (Ref 3), ?s1)"
      by code_simp
    have n: "\<not> truthy (get_member (heap ?s1) (body (req ?s0)) ''_id'')"
      by code_simp
    from put_without_id [OF g1 g2 g3 g4 f] n show ?thesis
      by blast
  qed
  have second: "fst (resolve ex_put_env (Some ex_settings) ex_put_state) = Next (Some ENOIDP)
                \<and> dispatches (snd (resolve ex_put_env (Some ex_settings) ex_put_state)) = []"
  proof -
    obtain st2 where st2: "st2 = snd (loadSubmission ex_put_env ex_settings ?st1)"
      by simp
    have g1: "\<not> skipSave (req ex_put_state)"
      by (simp add: ex_put_state_def ex_req_def)
    have g2: "truthy (body (req ex_put_state))"
      by (simp add: ex_put_state_def ex_req_def)
    have g3: "http_method (req ex_put_state) = ''PUT''"
      by (simp add: ex_put_state_def)
    have g4: "resource ex_settings \<noteq> []"
      by (simp add: ex_settings_def)
    have f: "loadResource ex_put_env ex_settings
               (ex_put_state\<lparr>req := (req ex_put_state)\<lparr>skipResource := Some True\<rparr>\<rparr>)
             = (Done (Ref 8), ?st1)"
      by code_simp
    have "fst (loadSubmission ex_put_env ex_settings ?st1) = Done (Ref 6)"
      by code_simp
    with st2 have l: "loadSubmission ex_put_env ex_settings ?st1 = (Done (Ref 6), st2)"
      by (simp add: prod_eq_iff)
    have c1: "truthy (Ref 6)"
      by simp
    have "\<not> truthy (get_member (heap (snd (loadSubmission ex_put_env ex_settings ?st1))) (Ref 6) ''_id'')"
      by code_simp
    with st2 have c2: "\<not> truthy (get_member (heap st2) (Ref 6) ''_id'')"
      by simp
    have cl: "createSubRequest ex_put_env (req st2) = Some (req st2)"
      by (simp add: ex_put_env_def ex_env_def)
    have f1: "\<not> nullish (Ref 8)"
      by simp
    have "\<not> nullish (get_member (heap (snd (loadSubmission ex_put_env ex_settings ?st1))) (Ref 8) ''_id'')"
      by code_simp
    with st2 have f2: "\<not> nullish (get_member (heap st2) (Ref 8) ''_id'')"
      by simp
    from put_without_id [OF g1 g2 g3 g4 f] l c1 c2 cl f1 f2
    have "resolve ex_put_env (Some ex_settings) ex_put_state
            = (Next (Some ENOIDP), emit (Logged ENOIDP) st2)
          \<and> dispatches (emit (Logged ENOIDP) st2) = dispatches ex_put_state"
      by blast
    then show ?thesis
      by (simp add: ex_put_state_def dispatches_def)
  qed
  from first second show ?thesis
    by (simp only:)
qed

text \<open>
  The claim as written fails: a PUT request whose own body has a \<^verbatim>\<open>form\<close> but no
  \<^verbatim>\<open>_id\<close> is passed on without any error (line 242), not failed with \<^verbatim>\<open>ENOIDP\<close>.
\<close>

theorem put_body_without_id_counterexample:
  "http_method (req (ex_state\<lparr>req := ex_req\<lparr>http_method := ''PUT''\<rparr>,
                            heap := ex_heap[2 := Obj [(''form'', Str ''f1''), (''data'', Ref 0)]]\<rparr>)) = ''PUT''
   \<and> get_member (ex_heap[2 := Obj [(''form'', Str ''f1''), (''data'', Ref 0)]]) (Ref 2) ''_id'' = Undefined
   \<and> fst (resolve ex_env (Some ex_settings)
            (ex_state\<lparr>req := ex_req\<lparr>http_method := ''PUT''\<rparr>,
                      heap := ex_heap[2 := Obj [(''form'', Str ''f1''), (''data'', Ref 0)]]\<rparr>)) = Next None"
  by code_simp

subsection \<open>Dispatch of the child request\<close>



subsection \<open>PATCH requests\<close>







subsection \<open>The external reference record\<close>

lemma get_member_Obj:
  assumes "a < length h" and "h ! a = Obj ps"
  shows "get_member h (Ref a) k = (case map_of ps k of Some x \<Rightarrow> x | None \<Rightarrow> Undefined)"
  using assms by (simp add: get_member_def own_of_def own_of_cell_def)

lemma get_member_other_key:
  assumes "b < length h" and "h ! b = Obj bps" and "k \<noteq> k'"
  shows "get_member (h[b := Obj (AList.update k' v bps)]) x k = get_member h x k"
proof (cases x)
  case (Ref i)
  with assms show ?thesis
    by (cases "i = b")
       (simp_all add: get_member_def own_of_def own_of_cell_def update_conv')
qed (simp_all add: get_member_def own_of_def)

lemma get_member_append:
  assumes "\<not> nullish (get_member h x k)"
  shows "get_member (h @ ys) x k = get_member h x k"
proof (cases x)
  case (Ref i)
  with assms have "i < length h"
    by (auto simp add: get_member_def own_of_def split: if_splits)
  with Ref show ?thesis
    by (simp add: get_member_def own_of_def nth_append)
qed (simp_all add: get_member_def own_of_def)

lemma externalIds_of_cases:
  assumes "b < length h" and "h ! b = Obj bps" and "externalIds_of h (Ref b) = Some xs"
  shows "(\<exists>a ps. get_member h (Ref b) ''externalIds'' = Ref a \<and> a < length h \<and> a \<noteq> b
                  \<and> h ! a = Arr xs ps)
         \<or> (\<not> truthy (get_member h (Ref b) ''externalIds'') \<and> xs = [])"
  using assms
  by (auto simp add: externalIds_of_def split: val.splits if_splits cell.splits)

lemma saveExternalId_appends:
  assumes b: "b < length h1" "h1 ! b = Obj bps"
    and ext: "externalIds_of h1 (Ref b) = Some xs"
    and item: "\<not> nullish (get_member h1 item ''_id'')"
  shows "\<exists>h2 h3. ensure_externalIds h1 (Ref b) = Inr h2
           \<and> saveExternalId E S item (Ref b) h1 = Inr h3
           \<and> externalIds_of h3 (Ref b) = Some (xs @ [Ref (length h2)])
           \<and> h3 ! length h2 = Obj [(''type'', Str ''resource''),
                                    (''resource'', Str (resource S)),
                                    (''id'', Str (toString E h2 (get_member h1 item ''_id'')))]
           \<and> length h2 < length h3"
proof -
  let ?rec = "\<lambda>h2. Obj [(''type'', Str ''resource''), (''resource'', Str (resource S)),
                         (''id'', Str (toString E h2 (get_member h1 item ''_id'')))]"
  from externalIds_of_cases [OF b ext] show ?thesis
  proof
    assume "\<exists>a ps. get_member h1 (Ref b) ''externalIds'' = Ref a \<and> a < length h1 \<and> a \<noteq> b
                    \<and> h1 ! a = Arr xs ps"
    then obtain a ps where a: "get_member h1 (Ref b) ''externalIds'' = Ref a" "a < length h1"
      "a \<noteq> b" "h1 ! a = Arr xs ps"
      by blast
    let ?h2 = "h1[b := Obj (AList.update ''externalIds'' (Ref a) bps)]"
    let ?h3 = "(?h2 @ [?rec ?h2])[a := Arr (xs @ [Ref (length ?h2)]) ps]"
    from a b have e: "ensure_externalIds h1 (Ref b) = Inr ?h2"
      by (simp add: ensure_externalIds_def assign_def put_cell_def)
    have g: "get_member ?h2 (Ref b) ''externalIds'' = Ref a"
      using b by (simp add: get_member_Obj update_conv')
    have i: "get_member ?h2 item ''_id'' = get_member h1 item ''_id''"
      using b by (intro get_member_other_key) simp_all
    from a b have p: "push (?h2 @ [?rec ?h2]) (Ref a) (Ref (length ?h2)) = Inr ?h3"
      by (simp add: push_def nth_append)
    from e g i item p have s: "saveExternalId E S item (Ref b) h1 = Inr ?h3"
      by (simp add: saveExternalId_def)
    from a b have x: "externalIds_of ?h3 (Ref b) = Some (xs @ [Ref (length ?h2)])"
      by (simp add: externalIds_of_def get_member_def own_of_def own_of_cell_def nth_append
          update_conv')
    from a have r: "?h3 ! length ?h2 = ?rec ?h2"
      by (simp add: nth_append)
    from e s x r show ?thesis
      by simp
  next
    assume f: "\<not> truthy (get_member h1 (Ref b) ''externalIds'') \<and> xs = []"
    let ?h2 = "(h1 @ [Arr [] []])[b := Obj (AList.update ''externalIds'' (Ref (length h1)) bps)]"
    let ?h3 = "(?h2 @ [?rec ?h2])[length h1 := Arr [Ref (length ?h2)] []]"
    from f b have e: "ensure_externalIds h1 (Ref b) = Inr ?h2"
      by (simp add: ensure_externalIds_def assign_def put_cell_def nth_append)
    have g: "get_member ?h2 (Ref b) ''externalIds'' = Ref (length h1)"
      using b by (simp add: get_member_Obj update_conv')
    have "get_member ?h2 item ''_id'' = get_member (h1 @ [Arr [] []]) item ''_id''"
      using b by (intro get_member_other_key) (simp_all add: nth_append)
    with item have i: "get_member ?h2 item ''_id'' = get_member h1 item ''_id''"
      by (simp add: get_member_append)
    from b have p: "push (?h2 @ [?rec ?h2]) (Ref (length h1)) (Ref (length ?h2)) = Inr ?h3"
      by (simp add: push_def nth_append)
    from e g i item p have s: "saveExternalId E S item (Ref b) h1 = Inr ?h3"
      by (simp add: saveExternalId_def)
    from b f have x: "externalIds_of ?h3 (Ref b) = Some (xs @ [Ref (length ?h2)])"
      by (simp add: externalIds_of_def get_member_def own_of_def own_of_cell_def nth_append
          update_conv')
    have r: "?h3 ! length ?h2 = ?rec ?h2"
      by (simp add: nth_append)
    from e s x r show ?thesis
      by simp
  qed
qed

lemma assignResource_after_write:
  assumes "(if property S \<noteq> []
            then assign (heap st) (get_member (heap st) (body (req st)) ''data'') (property S)
                   (case saved_item (res st) of Some item \<Rightarrow> item | None \<Rightarrow> sub)
            else Inr (heap st)) = Inr h1"
  shows "assignResource E S sub st =
           (case saved_item (res st) of
              Some item \<Rightarrow>
                if http_method (req st) = ''POST''
                then (case saveExternalId E S item (body (req st)) h1 of
                        Inl e \<Rightarrow> (Thrown e, st\<lparr>heap := h1\<rparr>)
                      | Inr h2 \<Rightarrow> (Done (), st\<lparr>heap := h2\<rparr>))
                else (Done (), st\<lparr>heap := h1\<rparr>)
            | None \<Rightarrow> (Done (), st\<lparr>heap := h1\<rparr>))"
proof (cases "property S = []")
  case True
  with assms have "heap st = h1"
    by simp
  then have "st\<lparr>heap := h1\<rparr> = st"
    by auto
  with True \<open>heap st = h1\<close> show ?thesis
    by (simp add: assignResource_def)
next
  case False
  with assms show ?thesis
    by (simp add: assignResource_def)
qed

lemma saveToResource_req:
  assumes "saveToResource E form child st = (r, st')"
  shows "req st' = req st"
  using assms
  by (auto simp add: saveToResource_def dispatch_def emit_def Let_def
      split: if_splits option.splits prod.splits)

lemma assignResource_write_fails:
  assumes "property S \<noteq> []"
    and "assign (heap st) (get_member (heap st) (body (req st)) ''data'') (property S)
           (case saved_item (res st) of Some item \<Rightarrow> item | None \<Rightarrow> sub) = Inl e"
  shows "assignResource E S sub st = (Thrown e, st)"
  using assms by (simp add: assignResource_def)

lemma assign_keeps_externalIds:
  assumes "assign h (Ref d) p v = Inr h'" and "bdy \<noteq> Ref d"
    and "get_member h bdy ''externalIds'' \<noteq> Ref d"
  shows "externalIds_of h' bdy = externalIds_of h bdy"
proof -
  from assms(1) obtain c where c: "h' = h[d := c]" "d < length h"
    by (auto simp add: assign_def split: if_splits cell.splits val.splits)
  have g: "get_member h' bdy k = get_member h bdy k" for k
  proof (cases bdy)
    case (Ref b)
    with assms(2) c show ?thesis
      by (simp add: get_member_def own_of_def)
  qed (simp_all add: get_member_def own_of_def)
  show ?thesis
  proof (cases "get_member h bdy ''externalIds''")
    case (Ref a)
    with assms(3) c g show ?thesis
      by (simp add: externalIds_of_def)
  qed (simp_all add: externalIds_of_def g)
qed

lemma second_series_saved:
  assumes "saveToResource E form child st = (Done (), st3)"
  shows "second_series E S form child st =
           (case assignResource E S child st3 of
              (Failed e, st4) \<Rightarrow> (Next (Some e), st4)
            | (Thrown e, st4) \<Rightarrow>
                if http_method (req st) = ''PUT'' \<and> calls_back_in_turn E
                then (Uncaught already_called, emit (Logged ESUBLOAD) st4)
                else (Uncaught e, st4)
            | (Done u, st4) \<Rightarrow> (Next None, st4))"
proof -
  obtain r st4 where a: "assignResource E S child st3 = (r, st4)"
    by force
  from assms have "caught_at_264 E form child st
                   = (http_method (req st) = ''PUT'' \<and> calls_back_in_turn E)"
    by (simp add: caught_at_264_def)
  with assms a show ?thesis
    by (cases r) (simp_all add: second_series_def save_and_assign_def)
qed

text \<open>
  Claim C5, as amended. Take a run that passes the gates and reaches the link step:
  the resource loads, the submission stage hands on a child submission, and the child
  save calls back without an error. If the write under \<^verbatim>\<open>settings.property\<close> (line 168)
  raises, the run ends with an exception that escapes and nothing is appended; on PUT,
  when the handler called back before it returned, the exception is first logged as
  \<^verbatim>\<open>ESUBLOAD\<close> and the one that escapes is that of the second call of the callback.
  Otherwise, on a POST request
  whose response holds a saved item: if the request body is an object, its
  \<^verbatim>\<open>externalIds\<close> is an array or falsy and the saved item has an \<^verbatim>\<open>_id\<close>, then
  \<^verbatim>\<open>resolve\<close> calls \<^verbatim>\<open>next\<close> without an error and the sequence has gained exactly one
  new record \<^verbatim>\<open>{type: 'resource', resource: settings.resource, id: item._id.toString()}\<close>
  at its end, whatever records it already holds. On any other method, and when no item
  was saved, \<^verbatim>\<open>resolve\<close> calls \<^verbatim>\<open>next\<close> without an error and the store is the one
  that the child save left, but for the write under the property: nothing is pushed, and
  the sequence is the one that the child save left unless that write itself lands on
  the body or on the sequence.
\<close>

theorem external_id_appended_on_post_only:
  assumes gates: "\<not> skipSave (req st0)" "truthy (body (req st0))"
      "http_method (req st0) = ''POST'' \<or> http_method (req st0) = ''PUT''
       \<or> http_method (req st0) = ''PATCH''"
      "resource S \<noteq> []"
    and form: "loadResource E S (st0\<lparr>req := (req st0)\<lparr>skipResource := Some True\<rparr>\<rparr>) = (Done form, st1)"
    and sub: "loadSubmission E S st1 = (Done child, st2)" "truthy child"
    and saved: "saveToResource E form child st2 = (Done (), st3)"
    and target: "d = get_member (heap st3) (body (req st0)) ''data''"
    and written: "written = (if property S \<noteq> []
                             then assign (heap st3) d (property S)
                                    (case saved_item (res st3) of Some item \<Rightarrow> item | None \<Rightarrow> child)
                             else Inr (heap st3))"
  shows "case written of
           Inl e \<Rightarrow>
             resolve E (Some S) st0 =
               (if http_method (req st0) = ''PUT'' \<and> calls_back_in_turn E
                then (Uncaught already_called, emit (Logged ESUBLOAD) st3)
                else (Uncaught e, st3))
         | Inr h4 \<Rightarrow>
             if http_method (req st0) = ''POST'' \<and> saved_item (res st3) \<noteq> None
             then \<forall>item b bps xs.
                    saved_item (res st3) = Some item \<and> body (req st0) = Ref b
                    \<and> b < length h4 \<and> h4 ! b = Obj bps
                    \<and> externalIds_of h4 (Ref b) = Some xs
                    \<and> \<not> nullish (get_member h4 item ''_id'')
                    \<longrightarrow> (\<exists>h5 h6.
                           ensure_externalIds h4 (Ref b) = Inr h5
                           \<and> resolve E (Some S) st0 = (Next None, st3\<lparr>heap := h6\<rparr>)
                           \<and> externalIds_of h6 (Ref b) = Some (xs @ [Ref (length h5)])
                           \<and> h6 ! length h5 =
                               Obj [(''type'', Str ''resource''),
                                    (''resource'', Str (resource S)),
                                    (''id'', Str (toString E h5 (get_member h4 item ''_id'')))]
                           \<and> length h5 < length h6)
             else resolve E (Some S) st0 = (Next None, st3\<lparr>heap := h4\<rparr>)
                  \<and> (property S = []
                        \<or> (body (req st0) \<noteq> d
                            \<and> get_member (heap st3) (body (req st0)) ''externalIds'' \<noteq> d)
                      \<longrightarrow> externalIds_of h4 (body (req st0))
                          = externalIds_of (heap st3) (body (req st0)))"
proof -
  from loadResource_frame [OF form]
  have r1: "req st1 = (req st0)\<lparr>skipResource := Some True\<rparr>"
    by simp
  from loadSubmission_frame [OF sub(1)] r1
  have r2: "http_method (req st2) = http_method (req st0)" "body (req st2) = body (req st0)"
    by auto
  from saveToResource_req [OF saved] r2
  have r3: "http_method (req st3) = http_method (req st0)" "body (req st3) = body (req st0)"
    by simp_all
  from gates have "resolve E (Some S) st0
      = load_and_save E S (st0\<lparr>req := (req st0)\<lparr>skipResource := Some True\<rparr>\<rparr>)"
    by (intro resolve_runs) simp_all
  with form sub have "resolve E (Some S) st0 = second_series E S form child st2"
    by (simp add: load_and_save_def)
  also note second_series_saved [OF saved, of S, unfolded r2(1)]
  finally have run: "resolve E (Some S) st0 =
           (case assignResource E S child st3 of
              (Failed e, st4) \<Rightarrow> (Next (Some e), st4)
            | (Thrown e, st4) \<Rightarrow>
                if http_method (req st0) = ''PUT'' \<and> calls_back_in_turn E
                then (Uncaught already_called, emit (Logged ESUBLOAD) st4)
                else (Uncaught e, st4)
            | (Done u, st4) \<Rightarrow> (Next None, st4))" .
  show ?thesis
  proof (cases written)
    case (Inl e)
    with written have p: "property S \<noteq> []"
      by (auto split: if_splits)
    with Inl written target r3
    have "assign (heap st3) (get_member (heap st3) (body (req st3)) ''data'') (property S)
            (case saved_item (res st3) of Some item \<Rightarrow> item | None \<Rightarrow> child) = Inl e"
      by simp
    from assignResource_write_fails [OF p this, of E] run Inl show ?thesis
      by simp
  next
    case (Inr h4)
    with written target r3
    have w: "(if property S \<noteq> []
              then assign (heap st3) (get_member (heap st3) (body (req st3)) ''data'') (property S)
                     (case saved_item (res st3) of Some item \<Rightarrow> item | None \<Rightarrow> child)
              else Inr (heap st3)) = Inr h4"
      by simp
    note ar = assignResource_after_write [OF w, of E]
    show ?thesis
    proof (cases "http_method (req st0) = ''POST'' \<and> saved_item (res st3) \<noteq> None")
      case True
      have "\<exists>h5 h6.
              ensure_externalIds h4 (Ref b) = Inr h5
              \<and> resolve E (Some S) st0 = (Next None, st3\<lparr>heap := h6\<rparr>)
              \<and> externalIds_of h6 (Ref b) = Some (xs @ [Ref (length h5)])
              \<and> h6 ! length h5 =
                  Obj [(''type'', Str ''resource''),
                       (''resource'', Str (resource S)),
                       (''id'', Str (toString E h5 (get_member h4 item ''_id'')))]
              \<and> length h5 < length h6"
        if it: "saved_item (res st3) = Some item" and b: "body (req st0) = Ref b"
          "b < length h4" "h4 ! b = Obj bps"
          and ext: "externalIds_of h4 (Ref b) = Some xs"
          and id: "\<not> nullish (get_member h4 item ''_id'')"
        for item b bps xs
      proof -
        from saveExternalId_appends [OF b(2,3) ext id, of E S]
        obtain h5 h6 where h: "ensure_externalIds h4 (Ref b) = Inr h5"
          "saveExternalId E S item (Ref b) h4 = Inr h6"
          "externalIds_of h6 (Ref b) = Some (xs @ [Ref (length h5)])"
          "h6 ! length h5 = Obj [(''type'', Str ''resource''), (''resource'', Str (resource S)),
                                 (''id'', Str (toString E h5 (get_member h4 item ''_id'')))]"
          "length h5 < length h6"
          by blast
        from ar it True r3 b(1) h(2)
        have "assignResource E S child st3 = (Done (), st3\<lparr>heap := h6\<rparr>)"
          by simp
        with run have "resolve E (Some S) st0 = (Next None, st3\<lparr>heap := h6\<rparr>)"
          by simp
        with h show ?thesis
          by blast
      qed
      with Inr True show ?thesis
        by simp
    next
      case False
      with ar r3 have "assignResource E S child st3 = (Done (), st3\<lparr>heap := h4\<rparr>)"
        by (auto split: option.splits)
      with run have n: "resolve E (Some S) st0 = (Next None, st3\<lparr>heap := h4\<rparr>)"
        by simp
      have "externalIds_of h4 (body (req st0)) = externalIds_of (heap st3) (body (req st0))"
        if "property S = []
            \<or> (body (req st0) \<noteq> d \<and> get_member (heap st3) (body (req st0)) ''externalIds'' \<noteq> d)"
      proof (cases "property S = []")
        case True
        with Inr written show ?thesis
          by simp
      next
        case p: False
        with that have na: "body (req st0) \<noteq> d"
          "get_member (heap st3) (body (req st0)) ''externalIds'' \<noteq> d"
          by simp_all
        from p Inr written
        have as: "assign (heap st3) d (property S)
                    (case saved_item (res st3) of Some item \<Rightarrow> item | None \<Rightarrow> child) = Inr h4"
          by simp
        then obtain x where "d = Ref x"
          by (cases d) (simp_all add: assign_def)
        with as na show ?thesis
          by (auto intro: assign_keeps_externalIds)
      qed
      with Inr False n show ?thesis
        by simp
    qed
  qed
qed

theorem external_id_appended_on_post_only_witness:
  "fst (resolve ex_env (Some ex_settings) ex_state) = Next None
   \<and> externalIds_of (heap ex_state) (Ref 2) = Some []
   \<and> externalIds_of (heap (snd (resolve ex_env (Some ex_settings) ex_state))) (Ref 2)
       = Some [Ref 10]
   \<and> heap (snd (resolve ex_env (Some ex_settings) ex_state)) ! 10
       = Obj [(''type'', Str ''resource''), (''resource'', Str ''r1''), (''id'', Str ''c1'')]
   \<and> fst (resolve ex_patch_env (Some ex_settings)
             (ex_state\<lparr>req := ex_req\<lparr>http_method := ''PATCH''\<rparr>\<rparr>)) = Next None
   \<and> externalIds_of
         (heap (snd (resolve ex_patch_env (Some ex_settings)
                       (ex_state\<lparr>req := ex_req\<lparr>http_method := ''PATCH''\<rparr>\<rparr>))))
         (Ref 2) = Some []"
proof -
  have post:
    "fst (resolve ex_env (Some ex_settings) ex_state) = Next None
     \<and> externalIds_of (heap ex_state) (Ref 2) = Some []
     \<and> externalIds_of (heap (snd (resolve ex_env (Some ex_settings) ex_state))) (Ref 2)
         = Some [Ref 10]
     \<and> heap (snd (resolve ex_env (Some ex_settings) ex_state)) ! 10
         = Obj [(''type'', Str ''resource''), (''resource'', Str ''r1''), (''id'', Str ''c1'')]"
  proof -
  let ?rq = "ex_req\<lparr>skipResource := Some True\<rparr>"
  let ?h1 = "ex_heap @ [Obj [(''_id'', Str ''r1'')]]"
  let ?h2 = "ex_heap @ [Obj [(''_id'', Str ''r1'')],
                        Obj [(''who'', Str ''Ann''), (''place'', Ref 7)],
                        Arr [] [],
                        Obj [(''data'', Ref 4), (''roles'', Ref 5)],
                        Obj [(''town'', Str ''Oslo'')]]"
  let ?h3 = "?h2 @ [Obj [(''_id'', Str ''c1''), (''data'', Ref 4)]]"
  let ?h4 = "?h3[0 := Obj [(''name'', Str ''Ann''), (''address'', Ref 1), (''linked'', Ref 8)]]"
  let ?h5 = "(?h4 @ [Arr [] []])[2 := Obj [(''data'', Ref 0), (''externalIds'', Ref 9)]]"
  let ?st1 = "\<lparr>heap = ?h1, req = ?rq, res = \<lparr>res_resource = None\<rparr>, trace = [LoadForm ''r1'']\<rparr>"
  let ?st2 = "\<lparr>heap = ?h2, req = ?rq, res = \<lparr>res_resource = None\<rparr>, trace = [LoadForm ''r1'']\<rparr>"
  let ?st3 = "\<lparr>heap = ?h3, req = ?rq, res = \<lparr>res_resource = Some (Ref 8)\<rparr>,
               trace = [LoadForm ''r1'',
                        Dispatch ''/form/:formId/submission'' ''post''
                          (?rq\<lparr>permissionsChecked := True, noResponse := True, body := Ref 6,
                               formId := Some ''r1'', params_formId := Some ''r1''\<rparr>)]\<rparr>"
  have g1: "\<not> skipSave (req ex_state)"
    by (simp add: ex_state_def ex_req_def)
  have g2: "truthy (body (req ex_state))"
    by (simp add: ex_state_def ex_req_def)
  have g3: "http_method (req ex_state) = ''POST'' \<or> http_method (req ex_state) = ''PUT''
            \<or> http_method (req ex_state) = ''PATCH''"
    by (simp add: ex_state_def ex_req_def)
  have g4: "resource ex_settings \<noteq> []"
    by (simp add: ex_settings_def)
  have f: "loadResource ex_env ex_settings (ex_state\<lparr>req := (req ex_state)\<lparr>skipResource := Some True\<rparr>\<rparr>)
           = (Done (Ref 3), ?st1)"
    by code_simp
  have l: "loadSubmission ex_env ex_settings ?st1 = (Done (Ref 6), ?st2)"
    by code_simp
  have t: "truthy (Ref 6)"
    by simp
  have s: "saveToResource ex_env (Ref 3) (Ref 6) ?st2 = (Done (), ?st3)"
    by code_simp
  have d: "Ref 0 = get_member (heap ?st3) (body (req ex_state)) ''data''"
    by code_simp
  have w: "Inr ?h4 = (if property ex_settings \<noteq> []
                      then assign (heap ?st3) (Ref 0) (property ex_settings)
                             (case saved_item (res ?st3) of Some item \<Rightarrow> item | None \<Rightarrow> Ref 6)
                      else Inr (heap ?st3))"
    by code_simp
  have p: "http_method (req ex_state) = ''POST'' \<and> saved_item (res ?st3) \<noteq> None"
    by code_simp
  have i: "saved_item (res ?st3) = Some (Ref 8)"
    by code_simp
  have b1: "body (req ex_state) = Ref 2"
    by (simp add: ex_state_def ex_req_def)
  have b2: "2 < length ?h4"
    by (simp add: ex_heap_def)
  have b3: "?h4 ! 2 = Obj [(''data'', Ref 0)]"
    by (simp add: ex_heap_def)
  have x: "externalIds_of ?h4 (Ref 2) = Some []"
    by code_simp
  have n: "\<not> nullish (get_member ?h4 (Ref 8) ''_id'')"
    by code_simp
  have e: "ensure_externalIds ?h4 (Ref 2) = Inr ?h5"
    by code_simp
  have k: "toString ex_env ?h5 (get_member ?h4 (Ref 8) ''_id'') = ''c1''"
    by code_simp
  have x0: "externalIds_of (heap ex_state) (Ref 2) = Some []"
    by code_simp
  from external_id_appended_on_post_only [OF g1 g2 g3 g4 f l t s d w] p
  have "\<forall>item b bps xs.
          saved_item (res ?st3) = Some item \<and> body (req ex_state) = Ref b
          \<and> b < length ?h4 \<and> ?h4 ! b = Obj bps
          \<and> externalIds_of ?h4 (Ref b) = Some xs
          \<and> \<not> nullish (get_member ?h4 item ''_id'')
          \<longrightarrow> (\<exists>h5 h6.
                 ensure_externalIds ?h4 (Ref b) = Inr h5
                 \<and> resolve ex_env (Some ex_settings) ex_state = (Next None, ?st3\<lparr>heap := h6\<rparr>)
                 \<and> externalIds_of h6 (Ref b) = Some (xs @ [Ref (length h5)])
                 \<and> h6 ! length h5 =
                     Obj [(''type'', Str ''resource''),
                          (''resource'', Str (resource ex_settings)),
                          (''id'', Str (toString ex_env h5 (get_member ?h4 item ''_id'')))]
                 \<and> length h5 < length h6)"
    by (simp only: sum.case if_True simp_thms)
  with i b1 b2 b3 x n obtain h5 h6 where h:
    "ensure_externalIds ?h4 (Ref 2) = Inr h5"
    "resolve ex_env (Some ex_settings) ex_state = (Next None, ?st3\<lparr>heap := h6\<rparr>)"
    "externalIds_of h6 (Ref 2) = Some ([] @ [Ref (length h5)])"
    "h6 ! length h5 =
       Obj [(''type'', Str ''resource''),
            (''resource'', Str (resource ex_settings)),
            (''id'', Str (toString ex_env h5 (get_member ?h4 (Ref 8) ''_id'')))]"
    by blast
  from h(1) e have h5: "h5 = ?h5"
    by simp
  have len: "length ?h5 = 10"
    by (simp add: ex_heap_def)
  from h(2) have r: "fst (resolve ex_env (Some ex_settings) ex_state) = Next None"
    "heap (snd (resolve ex_env (Some ex_settings) ex_state)) = h6"
    by simp_all
  from h(3) h5 len have a: "externalIds_of h6 (Ref 2) = Some [Ref 10]"
    by simp
  from h(4) k have "h6 ! length h5
                    = Obj [(''type'', Str ''resource''), (''resource'', Str ''r1''), (''id'', Str ''c1'')]"
    unfolding h5 by (simp add: ex_settings_def)
  with h5 len have b: "h6 ! 10
                    = Obj [(''type'', Str ''resource''), (''resource'', Str ''r1''), (''id'', Str ''c1'')]"
    by simp
  from r a b x0 show ?thesis
    by (simp only:)
  qed
  have patch:
    "fst (resolve ex_patch_env (Some ex_settings)
            (ex_state\<lparr>req := ex_req\<lparr>http_method := ''PATCH''\<rparr>\<rparr>)) = Next None
     \<and> externalIds_of
           (heap (snd (resolve ex_patch_env (Some ex_settings)
                         (ex_state\<lparr>req := ex_req\<lparr>http_method := ''PATCH''\<rparr>\<rparr>))))
           (Ref 2) = Some []"
  proof -
    let ?s0 = "ex_state\<lparr>req := ex_req\<lparr>http_method := ''PATCH''\<rparr>\<rparr>"
    let ?rq = "ex_req\<lparr>http_method := ''PATCH'', skipResource := Some True\<rparr>"
    let ?h2 = "ex_heap @ [Obj [(''_id'', Str ''r1'')],
                          Obj [(''who'', Str ''Ann''), (''place'', Ref 7)],
                          Arr [] [],
                          Obj [(''data'', Ref 4), (''roles'', Ref 5)],
                          Obj [(''town'', Str ''Oslo'')]]"
    let ?h3 = "?h2 @ [Obj [(''_id'', Str ''c1''), (''data'', Ref 4)]]"
    let ?h4 = "?h3[0 := Obj [(''name'', Str ''Ann''), (''address'', Ref 1), (''linked'', Ref 8)]]"
    let ?st1 = "\<lparr>heap = ex_heap @ [Obj [(''_id'', Str ''r1'')]], req = ?rq,
                 res = \<lparr>res_resource = None\<rparr>, trace = [LoadForm ''r1'']\<rparr>"
    let ?st2 = "\<lparr>heap = ?h2, req = ?rq, res = \<lparr>res_resource = None\<rparr>, trace = [LoadForm ''r1'']\<rparr>"
    let ?st3 = "\<lparr>heap = ?h3, req = ?rq, res = \<lparr>res_resource = Some (Ref 8)\<rparr>,
                 trace = [LoadForm ''r1'',
                          Dispatch ''/form/:formId/submission'' ''patch''
                            (?rq\<lparr>permissionsChecked := True, noResponse := True, body := Ref 6,
                                 formId := Some ''r1'', params_formId := Some ''r1''\<rparr>)]\<rparr>"
    have g1: "\<not> skipSave (req ?s0)"
      by (simp add: ex_req_def)
    have g2: "truthy (body (req ?s0))"
      by (simp add: ex_req_def)
    have g3: "http_method (req ?s0) = ''POST'' \<or> http_method (req ?s0) = ''PUT''
              \<or> http_method (req ?s0) = ''PATCH''"
      by simp
    have g4: "resource ex_settings \<noteq> []"
      by (simp add: ex_settings_def)
    have f: "loadResource ex_patch_env ex_settings (?s0\<lparr>req := (req ?s0)\<lparr>skipResource := Some True\<rparr>\<rparr>)
             = (Done (Ref 3), ?st1)"
      by code_simp
    have l: "loadSubmission ex_patch_env ex_settings ?st1 = (Done (Ref 6), ?st2)"
      by code_simp
    have t: "truthy (Ref 6)"
      by simp
    have s: "saveToResource ex_patch_env (Ref 3) (Ref 6) ?st2 = (Done (), ?st3)"
      by code_simp
    have d: "Ref 0 = get_member (heap ?st3) (body (req ?s0)) ''data''"
      by code_simp
    have w: "Inr ?h4 = (if property ex_settings \<noteq> []
                        then assign (heap ?st3) (Ref 0) (property ex_settings)
                               (case saved_item (res ?st3) of Some item \<Rightarrow> item | None \<Rightarrow> Ref 6)
                        else Inr (heap ?st3))"
      by code_simp
    have np: "(http_method (req ?s0) = ''POST'' \<and> saved_item (res ?st3) \<noteq> None) = False"
      by simp
    have na: "property ex_settings = []
              \<or> (body (req ?s0) \<noteq> Ref 0
                  \<and> get_member (heap ?st3) (body (req ?s0)) ''externalIds'' \<noteq> Ref 0)"
      by code_simp
    have x3: "externalIds_of (heap ?st3) (body (req ?s0)) = Some []"
      by code_simp
    have b: "body (req ?s0) = Ref 2"
      by (simp add: ex_req_def)
    from external_id_appended_on_post_only [OF g1 g2 g3 g4 f l t s d w, unfolded sum.case np if_False]
    have "resolve ex_patch_env (Some ex_settings) ?s0 = (Next None, ?st3\<lparr>heap := ?h4\<rparr>)
          \<and> (property ex_settings = []
                \<or> (body (req ?s0) \<noteq> Ref 0
                    \<and> get_member (heap ?st3) (body (req ?s0)) ''externalIds'' \<noteq> Ref 0)
              \<longrightarrow> externalIds_of ?h4 (body (req ?s0)) = externalIds_of (heap ?st3) (body (req ?s0)))"
      .
    with na x3 have "resolve ex_patch_env (Some ex_settings) ?s0 = (Next None, ?st3\<lparr>heap := ?h4\<rparr>)"
      and "externalIds_of ?h4 (body (req ?s0)) = Some []"
      by (blast, metis)
    then show ?thesis
      unfolding b by simp
  qed
  from post patch show ?thesis
    by (simp only:)
qed

text \<open>
  The claim as written fails where it promises never to duplicate a record: line 175
  pushes without looking at the sequence. A creation whose body already holds a record
  for the resource \<^verbatim>\<open>r1\<close> ends with two records for it.
\<close>

theorem external_id_duplicate_counterexample:
  "externalIds_of (heap ex_linked_state) (Ref 2) = Some [Ref 4]
   \<and> matches_external (heap ex_linked_state) ''r1'' (Ref 4)
   \<and> externalIds_of (heap (snd (resolve ex_env (Some ex_settings) ex_linked_state))) (Ref 2)
       = Some [Ref 4, Ref 11]
   \<and> matches_external (heap (snd (resolve ex_env (Some ex_settings) ex_linked_state))) ''r1'' (Ref 4)
   \<and> matches_external (heap (snd (resolve ex_env (Some ex_settings) ex_linked_state))) ''r1'' (Ref 11)"
  by code_simp

subsection \<open>The script handed to the sandbox\<close>

text \<open>
  Claim C3, as amended. Let \<^verbatim>\<open>updateSubmission\<close> run on a child submission whose
  \<^verbatim>\<open>data\<close> is set, and let the merge succeed with the store \<open>h4\<close>. If
  \<^verbatim>\<open>settings.transform\<close> is empty, nothing is evaluated and the child keeps the merged
  data. Otherwise the sandbox is called exactly once, on the text made of
  \<^verbatim>\<open>data=submission.data;\<close>, a newline, the user script, a newline and \<^verbatim>\<open>data;\<close>, with
  the \<^verbatim>\<open>submission\<close> binding set to the saved item of the response, or else to the
  body of the primary request, and with the \<^verbatim>\<open>data\<close> binding set to the merged data of
  the child; the value that the sandbox returns becomes the child's \<^verbatim>\<open>data\<close>. So the
  prelude rebinds \<^verbatim>\<open>data\<close> to the data of the \<^verbatim>\<open>submission\<close> binding, which is not the
  child.
\<close>

theorem transform_script_and_bindings:
  assumes sub: "truthy sub" "truthy (get_member (heap st) sub ''data'')"
    and stored: "assign (heap st) sub ''data'' (get_member (heap st) sub ''data'') = Inr h3"
    and merged: "merge_fields E (body (req st)) sub (sfields S) h3 = Inr h4"
    and bsub: "bsub = (case saved_item (res st) of Some item \<Rightarrow> item | None \<Rightarrow> body (req st))"
    and code: "code = ''data=submission.data;'' @ [CHR 0x0A] @ transform S @ [CHR 0x0A] @ ''data;''"
  shows "if transform S = []
         then updateSubmission E S sub st = (Done sub, st\<lparr>heap := h4\<rparr>)
         else (case evaluate E h4 code bsub (get_member h4 sub ''data'') of
                 Inl e \<Rightarrow>
                   updateSubmission E S sub st =
                     (Done sub,
                      st\<lparr>heap := h4,
                         trace := trace st @ [Evaluate code bsub (get_member h4 sub ''data''), Debug e]\<rparr>)
               | Inr (h5, newData) \<Rightarrow>
                   (case assign h5 sub ''data'' newData of
                      Inl e \<Rightarrow>
                        updateSubmission E S sub st =
                          (Done sub,
                           st\<lparr>heap := h5,
                              trace := trace st @ [Evaluate code bsub (get_member h4 sub ''data''), Debug e]\<rparr>)
                    | Inr h6 \<Rightarrow>
                        updateSubmission E S sub st =
                          (Done sub,
                           st\<lparr>heap := h6,
                              req := (req st)\<lparr>isTransformedData := True\<rparr>,
                              trace := trace st @ [Evaluate code bsub (get_member h4 sub ''data'')]\<rparr>)))"
proof -
  from sub stored merged
  have u: "updateSubmission E S sub st =
             (if transform S \<noteq> []
              then (Done sub, run_transform E S sub (st\<lparr>heap := h4\<rparr>))
              else (Done sub, st\<lparr>heap := h4\<rparr>))"
    by (simp add: updateSubmission_def merge_stage_def defaults_def)
  have t: "code = script (transform S)"
    using code by (simp add: script_def)
  show ?thesis
  proof (cases "transform S = []")
    case True
    with u show ?thesis
      by simp
  next
    case False
    with u have "updateSubmission E S sub st = (Done sub, run_transform E S sub (st\<lparr>heap := h4\<rparr>))"
      by simp
    with False bsub t show ?thesis
      by (cases "saved_item (res st)")
         (simp_all add: run_transform_def Let_def emit_def split: sum.splits prod.splits)
  qed
qed

theorem transform_script_and_bindings_witness:
  "updateSubmission (ex_env\<lparr>evaluate := blank_script_vm\<rparr>) ex_blank_settings (Ref 5) ex_child_state
     = (Done (Ref 5),
        ex_child_state
          \<lparr>heap := (heap ex_child_state)[5 := Obj [(''data'', Ref 0), (''roles'', Ref 4)]],
           req := ex_req\<lparr>isTransformedData := True\<rparr>,
           trace := [Evaluate (''data=submission.data;'' @ [CHR 0x0A] @ '' '' @ [CHR 0x0A] @ ''data;'')
                       (Ref 2) (Ref 3)]\<rparr>)"
proof -
  let ?E = "ex_env\<lparr>evaluate := blank_script_vm\<rparr>"
  let ?h = "heap ex_child_state"
  let ?code = "''data=submission.data;'' @ [CHR 0x0A] @ transform ex_blank_settings @ [CHR 0x0A] @ ''data;''"
  have a: "truthy (Ref 5)"
    by simp
  have b: "truthy (get_member ?h (Ref 5) ''data'')"
    by code_simp
  have c: "assign ?h (Ref 5) ''data'' (get_member ?h (Ref 5) ''data'') = Inr ?h"
    by code_simp
  have d: "merge_fields ?E (body (req ex_child_state)) (Ref 5) (sfields ex_blank_settings) ?h = Inr ?h"
    by (simp add: ex_blank_settings_def)
  have e: "Ref 2 = (case saved_item (res ex_child_state) of Some item \<Rightarrow> item
                    | None \<Rightarrow> body (req ex_child_state))"
    by (simp add: ex_child_state_def saved_item_def ex_req_def)
  have t: "transform ex_blank_settings \<noteq> []"
    by (simp add: ex_blank_settings_def)
  have g: "get_member ?h (Ref 5) ''data'' = Ref 3"
    by code_simp
  have v: "evaluate ?E ?h ?code (Ref 2) (Ref 3) = Inr (?h, Ref 0)"
    by code_simp
  have w: "assign ?h (Ref 5) ''data'' (Ref 0) = Inr (?h[5 := Obj [(''data'', Ref 0), (''roles'', Ref 4)]])"
    by code_simp
  from transform_script_and_bindings [OF a b c d e refl]
  show ?thesis
    unfolding g using t v w by (simp add: ex_child_state_def ex_blank_settings_def)
qed

text \<open>
  The claim as written fails twice. With an empty user script the sandbox is not called
  at all (line 206). With a blank one it is called with the merged child data, the empty
  object at address 3, as the \<^verbatim>\<open>data\<close> binding, and what it returns, and what the child
  then holds as \<^verbatim>\<open>data\<close>, is the data of the primary request at address 0.
\<close>

theorem transform_prelude_counterexample:
  "trace (snd (updateSubmission (ex_env\<lparr>evaluate := blank_script_vm\<rparr>)
                (ex_blank_settings\<lparr>transform := []\<rparr>) (Ref 5) ex_child_state)) = []
   \<and> get_member (heap ex_child_state) (Ref 5) ''data'' = Ref 3
   \<and> heap ex_child_state ! 3 = Obj []
   \<and> body (req ex_child_state) = Ref 2
   \<and> trace (snd (updateSubmission (ex_env\<lparr>evaluate := blank_script_vm\<rparr>)
                    ex_blank_settings (Ref 5) ex_child_state))
       = [Evaluate (script '' '') (Ref 2) (Ref 3)]
   \<and> blank_script_vm (heap ex_child_state) (script '' '') (Ref 2) (Ref 3)
       = Inr (heap ex_child_state, Ref 0)
   \<and> heap ex_child_state ! 0 = Obj [(''name'', Str ''Ann''), (''address'', Ref 1)]
   \<and> get_member (heap (snd (updateSubmission (ex_env\<lparr>evaluate := blank_script_vm\<rparr>)
                               ex_blank_settings (Ref 5) ex_child_state))) (Ref 5) ''data'' = Ref 0"
  by code_simp

subsection \<open>A transform that throws\<close>

















subsection \<open>The field merge\<close>

lemma own_of_put_cell:
  assumes "writable c k"
  shows "own_of_cell (put_cell c k v) k = Some v"
proof (cases c)
  case (Obj ps)
  then show ?thesis
    by (simp add: own_of_cell_def put_cell_def update_conv')
next
  case (Arr xs ps)
  with assms have k: "k \<noteq> ''length''"
    by (simp add: writable_def)
  show ?thesis
  proof (cases "array_index k")
    case None
    with Arr k show ?thesis
      by (simp add: own_of_cell_def put_cell_def update_conv')
  next
    case (Some i)
    show ?thesis
    proof (cases "i < length xs")
      case True
      with Arr k Some show ?thesis
        by (simp add: own_of_cell_def put_cell_def)
    next
      case False
      then have "(xs @ replicate (i - length xs) Undefined @ [v]) ! i = v"
        by (simp add: nth_append)
      with False Arr k Some show ?thesis
        by (simp add: own_of_cell_def put_cell_def)
    qed
  qed
qed

lemma assign_writable:
  assumes "a < length h" and "writable (h ! a) k"
  shows "assign h (Ref a) k v = Inr (h[a := put_cell (h ! a) k v])"
  using assms by (cases "h ! a") (simp_all add: assign_def writable_def)

lemma is_index_not_length: "\<not> is_index ''length''"
  by code_simp

lemma writable_new_cell: "writable (if is_index k then Arr [] [] else Obj []) k"
  using is_index_not_length by (auto simp add: writable_def)

lemma get_member_new_cell:
  "get_member (h @ [if is_index k then Arr [] [] else Obj []]) (Ref (length h)) k = Undefined"
proof -
  have "k \<noteq> ''length''" if "is_index k"
    using that is_index_not_length by auto
  then show ?thesis
    by (auto simp add: get_member_def own_of_def own_of_cell_def split: option.splits)
qed

lemma baseSet_reads_back:
  assumes "simple_path h seen a ks" and "ks \<noteq> []"
    and "\<forall>k \<in> set ks. \<not> unsafe_key k" and "\<forall>s \<in> set seen. s < length h"
  shows "\<exists>h'. baseSet h a ks v = Inr h'
           \<and> baseGet h' (Ref a) ks = v \<and> hasPath h' (Ref a) ks
           \<and> length h \<le> length h' \<and> length h' < length h + length ks
           \<and> (\<forall>s \<in> set seen. h' ! s = h ! s)"
  using assms
proof (induction ks arbitrary: h seen a)
  case Nil
  then show ?case
    by simp
next
  case (Cons k ks)
  from Cons.prems have a: "a < length h" "a \<notin> set seen" "writable (h ! a) k" "\<not> unsafe_key k"
    by (cases ks; simp)+
  show ?case
  proof (cases ks)
    case Nil
    let ?h' = "h[a := put_cell (h ! a) k v]"
    from a have "own_of ?h' (Ref a) k = Some v"
      by (simp add: own_of_def own_of_put_cell)
    moreover from a have "\<forall>s \<in> set seen. ?h' ! s = h ! s"
      by (auto simp add: nth_list_update)
    ultimately show ?thesis
      using a Nil by (simp add: assign_writable get_member_def has_own_def)
  next
    case (Cons k' rest)
    from Cons.prems Cons have safe: "\<forall>x \<in> set ks. \<not> unsafe_key x" and ne: "ks \<noteq> []"
      by simp_all
    show ?thesis
    proof (cases "\<exists>p. get_member h (Ref a) k = Ref p")
      case True
      then obtain p where p: "get_member h (Ref a) k = Ref p"
        by blast
      with Cons.prems Cons have sp: "simple_path h (a # seen) p ks"
        by simp
      from a Cons.prems have lt: "\<forall>s \<in> set (a # seen). s < length h"
        by simp
      from Cons.IH [OF sp ne safe lt] obtain h' where h':
        "baseSet h p ks v = Inr h'" "baseGet h' (Ref p) ks = v" "hasPath h' (Ref p) ks"
        "length h \<le> length h'" "length h' < length h + length ks"
        "\<forall>s \<in> set (a # seen). h' ! s = h ! s"
        by blast
      from h'(4,6) a have "own_of h' (Ref a) k = own_of h (Ref a) k"
        by (simp add: own_of_def)
      with p have g: "get_member h' (Ref a) k = Ref p" "has_own h' (Ref a) k"
        by (auto simp add: get_member_def has_own_def split: option.splits)
      from a p Cons h'(1) have "baseSet h a (k # ks) v = Inr h'"
        by simp
      with g h' show ?thesis
        by auto
    next
      case False
      let ?new = "if is_index k' then Arr [] [] else Obj []"
      let ?p = "length h"
      let ?h1 = "h @ [?new]"
      let ?h2 = "?h1[a := put_cell (h ! a) k (Ref ?p)]"
      from a have as: "assign ?h1 (Ref a) k (Ref ?p) = Inr ?h2"
        by (simp add: assign_writable nth_append)
      from a have cell: "?h2 ! ?p = ?new"
        by (simp add: nth_append)
      have "get_member ?h2 (Ref ?p) k' = get_member ?h1 (Ref ?p) k'"
        using a by (simp add: get_member_def own_of_def)
      then have und: "get_member ?h2 (Ref ?p) k' = Undefined"
        by (simp only: get_member_new_cell)
      from a Cons.prems have notin: "?p \<notin> set (a # seen)"
        by auto
      from cell und notin Cons have sp: "simple_path ?h2 (a # seen) ?p ks"
        by (cases rest) (simp_all add: writable_new_cell)
      from a Cons.prems have lt: "\<forall>s \<in> set (a # seen). s < length ?h2"
        by auto
      from Cons.IH [OF sp ne safe lt] obtain h' where h':
        "baseSet ?h2 ?p ks v = Inr h'" "baseGet h' (Ref ?p) ks = v" "hasPath h' (Ref ?p) ks"
        "length ?h2 \<le> length h'" "length h' < length ?h2 + length ks"
        "\<forall>s \<in> set (a # seen). h' ! s = ?h2 ! s"
        by blast
      from h'(4,6) a have "own_of h' (Ref a) k = Some (Ref ?p)"
        by (simp add: own_of_def own_of_put_cell)
      then have g: "get_member h' (Ref a) k = Ref ?p" "has_own h' (Ref a) k"
        by (simp_all add: get_member_def has_own_def)
      from False have "(case get_member h (Ref a) k of Ref p \<Rightarrow> x p | _ \<Rightarrow> y) = y"
        for x :: "addr \<Rightarrow> err \<times> store + store" and y
        by (cases "get_member h (Ref a) k") auto
      with a Cons as h'(1) have bs: "baseSet h a (k # ks) v = Inr h'"
        by simp
      have "?h2 ! s = h ! s" if "s \<in> set seen" for s
      proof -
        from that a have "s \<noteq> a"
          by auto
        moreover from that Cons.prems have "s < length h"
          by simp
        ultimately show ?thesis
          by (simp add: nth_append)
      qed
      with h'(6) have fr: "\<forall>s \<in> set seen. h' ! s = h ! s"
        by simp
      from bs g h' fr show ?thesis
        by auto
    qed
  qed
qed

lemma last_object_new_cell:
  assumes "a < length h" and "ks \<noteq> []"
  shows "last_object ((h @ [if is_index (hd ks) then Arr [] [] else Obj []])[a := c]) (length h) ks
         = (length h, ks)"
proof -
  let ?h = "(h @ [if is_index (hd ks) then Arr [] [] else Obj []])[a := c]"
  from assms have "get_member ?h (Ref (length h)) (hd ks)
                   = get_member (h @ [if is_index (hd ks) then Arr [] [] else Obj []]) (Ref (length h)) (hd ks)"
    by (simp add: get_member_def own_of_def)
  then have u: "get_member ?h (Ref (length h)) (hd ks) = Undefined"
    by (simp only: get_member_new_cell)
  show ?thesis
  proof (cases ks)
    case Nil
    with assms show ?thesis
      by simp
  next
    case (Cons k rest)
    with u show ?thesis
      by (cases rest) simp_all
  qed
qed

lemma baseSet_exact:
  assumes "simple_path h seen a ks" and "ks \<noteq> []" and "\<forall>k \<in> set ks. \<not> unsafe_key k"
  shows "baseSet h a ks v =
           Inr (case last_object h a ks of
                  (b, kr) \<Rightarrow>
                    (h @ new_cells (length h) kr v)
                      [b := put_cell (h ! b) (hd kr) (if tl kr = [] then v else Ref (length h))])"
  using assms
proof (induction ks arbitrary: h seen a)
  case Nil
  then show ?case
    by simp
next
  case (Cons k ks)
  from Cons.prems have a: "a < length h" "writable (h ! a) k" "\<not> unsafe_key k"
    by (cases ks; simp)+
  show ?case
  proof (cases ks)
    case Nil
    with a show ?thesis
      by (simp add: assign_writable)
  next
    case (Cons k' rest)
    from Cons.prems Cons have safe: "\<forall>x \<in> set ks. \<not> unsafe_key x" and ne: "ks \<noteq> []"
      by simp_all
    show ?thesis
    proof (cases "\<exists>p. get_member h (Ref a) k = Ref p")
      case True
      then obtain p where p: "get_member h (Ref a) k = Ref p"
        by blast
      with Cons.prems Cons have sp: "simple_path h (a # seen) p ks"
        by simp
      from Cons.IH [OF sp ne safe] a p Cons show ?thesis
        by simp
    next
      case False
      let ?new = "if is_index k' then Arr [] [] else Obj []"
      let ?p = "length h"
      let ?A = "put_cell (h ! a) k (Ref ?p)"
      let ?h2 = "(h @ [?new])[a := ?A]"
      let ?B = "put_cell ?new k' (if rest = [] then v else Ref (?p + 1))"
      from False have nr: "(case get_member h (Ref a) k of Ref p \<Rightarrow> x p | _ \<Rightarrow> y) = y"
        for x :: "addr \<Rightarrow> 'b" and y
        by (cases "get_member h (Ref a) k") auto
      from a have as: "assign (h @ [?new]) (Ref a) k (Ref ?p) = Inr ?h2"
        by (simp add: assign_writable nth_append)
      from a have cell: "?h2 ! ?p = ?new"
        by (simp add: nth_append)
      from a Cons last_object_new_cell [of a h ks ?A]
      have lo: "last_object ?h2 ?p ks = (?p, ks)"
        by simp
      have "get_member ?h2 (Ref ?p) k' = get_member (h @ [?new]) (Ref ?p) k'"
        using a by (simp add: get_member_def own_of_def)
      then have und: "get_member ?h2 (Ref ?p) k' = Undefined"
        by (simp only: get_member_new_cell)
      from cell und Cons have sp: "simple_path ?h2 [] ?p ks"
        by (cases rest) (simp_all add: writable_new_cell)
      from Cons.IH [OF sp ne safe] lo Cons cell
      have "baseSet ?h2 ?p ks v
            = Inr ((?h2 @ new_cells (?p + 1) ks v)[?p := ?B])"
        by simp
      moreover have "(?h2 @ cs)[?p := ?B] = (h @ ?B # cs)[a := ?A]" for cs
      proof -
        from a have "?h2 = h[a := ?A] @ [?new]"
          by (simp add: list_update_append1)
        moreover have "((h[a := ?A] @ [?new]) @ cs)[?p := ?B] = h[a := ?A] @ ?B # cs"
          by (simp add: list_update_append)
        moreover from a have "(h @ ?B # cs)[a := ?A] = h[a := ?A] @ ?B # cs"
          by (simp add: list_update_append1)
        ultimately show ?thesis
          by simp
      qed
      moreover from Cons nr have lo': "last_object h a (k # ks) = (a, k # ks)"
        by simp
      moreover from lo' Cons
      have "(case last_object h a (k # ks) of
               (b, kr) \<Rightarrow>
                 (h @ new_cells (length h) kr v)
                   [b := put_cell (h ! b) (hd kr) (if tl kr = [] then v else Ref (length h))])
            = (h @ ?B # new_cells (?p + 1) ks v)[a := ?A]"
        by simp
      moreover have "baseSet h a (k # ks) v = baseSet ?h2 ?p ks v"
      proof -
        have "baseSet h a (k # ks) v =
                (case assign (h @ [?new]) (Ref a) k (Ref ?p) of
                   Inl e \<Rightarrow> Inl (e, h)
                 | Inr h' \<Rightarrow> baseSet h' ?p ks v)"
          by (simp only: Cons baseSet.simps a(3) if_False nr)
        then show ?thesis
          by (simp only: as sum.case)
      qed
      ultimately show ?thesis
        by simp
    qed
  qed
qed

lemma merge_fields_append:
  "merge_fields E b s (xs @ ys) h =
     (case merge_fields E b s xs h of
        Inl x \<Rightarrow> Inl x
      | Inr h' \<Rightarrow> merge_fields E b s ys h')"
  by (induction xs arbitrary: h) (simp_all split: sum.splits)

text \<open>
  Claim C6, as amended. Let \<^verbatim>\<open>updateSubmission\<close> run on a submission \<open>sub0\<close>, let
  lines 193 and 194 give the child \<open>sub\<close>, and take any mapping of \<^verbatim>\<open>settings.fields\<close>,
  of the target path \<open>key\<close> to the source \<open>field\<close>, at its turn of the loop: the turns
  before it raised nothing and left the store \<open>h\<close>. Let the child's \<^verbatim>\<open>data\<close> be an
  object then, and let the keys \<open>ks\<close> of the target path be not empty, name no prototype
  member that lodash refuses, and make a walk that meets no object twice and writes no
  array length. The turn raises nothing. If the source is the string \<^verbatim>\<open>data\<close>, the
  value \<open>v\<close> assigned is the \<^verbatim>\<open>data\<close> of the primary request; otherwise, if
  \<^verbatim>\<open>_.has\<close> finds the source path in it, \<open>v\<close> is what \<^verbatim>\<open>_.get\<close> reads there; otherwise
  nothing is written and the store is unchanged. The store after the assignment is the
  store before it with one cell changed and new cells appended: the last object that the
  target path already leads through gets, at the first of the keys that remain, the value
  \<open>v\<close> itself, or the first of the containers created for the other keys that remain, and
  the last of these holds \<open>v\<close> itself. So the value is shared, not copied; the objects
  that the path already leads through are kept, with their other members; and no other
  cell changes. Read back along the target path, the child's data gives \<open>v\<close>, and every
  key on the way is an own property. The loop then goes on from that store with the
  mappings that remain, and \<^verbatim>\<open>updateSubmission\<close> ends as they decide.
\<close>

theorem merge_field_assigns_by_reference:
  assumes start: "defaults (heap st) sub0 = Inr (sub, h0)"
    and turn: "sfields S = pre @ (key, field) # post"
    and before: "merge_fields E (body (req st)) sub pre h0 = Inr h"
    and child: "get_member h sub ''data'' = Ref a"
    and path: "castPath E h (Ref a) key = ks" "ks \<noteq> []" "\<forall>k \<in> set ks. \<not> unsafe_key k"
      "simple_path h [] a ks"
    and source: "v = (if field = ''data'' then get_member h (body (req st)) ''data''
                      else lodash_get E h (get_member h (body (req st)) ''data'') field)"
  shows "\<exists>h'. merge_field E (body (req st)) sub (key, field) h = Inr h'
           \<and> (if field = ''data'' \<or> lodash_has E h (get_member h (body (req st)) ''data'') field
              then (case last_object h a ks of
                      (b, kr) \<Rightarrow>
                        h' = (h @ new_cells (length h) kr v)
                               [b := put_cell (h ! b) (hd kr)
                                       (if tl kr = [] then v else Ref (length h))])
                   \<and> baseGet h' (Ref a) ks = v \<and> hasPath h' (Ref a) ks
              else h' = h)
           \<and> updateSubmission E S sub0 st =
               (case merge_fields E (body (req st)) sub post h' of
                  Inl (e, hx) \<Rightarrow> (Thrown e, st\<lparr>heap := hx\<rparr>)
                | Inr h4 \<Rightarrow>
                    if transform S \<noteq> []
                    then (Done sub, run_transform E S sub (st\<lparr>heap := h4\<rparr>))
                    else (Done sub, st\<lparr>heap := h4\<rparr>))"
proof -
  have loop: "updateSubmission E S sub0 st =
               (case merge_fields E (body (req st)) sub post h' of
                  Inl (e, hx) \<Rightarrow> (Thrown e, st\<lparr>heap := hx\<rparr>)
                | Inr h4 \<Rightarrow>
                    if transform S \<noteq> []
                    then (Done sub, run_transform E S sub (st\<lparr>heap := h4\<rparr>))
                    else (Done sub, st\<lparr>heap := h4\<rparr>))"
    if "merge_field E (body (req st)) sub (key, field) h = Inr h'" for h'
  proof -
    from before that
    have "merge_fields E (body (req st)) sub (sfields S) h0
          = merge_fields E (body (req st)) sub post h'"
      unfolding turn by (simp add: merge_fields_append)
    with start show ?thesis
      by (simp add: updateSubmission_def merge_stage_def split: sum.splits)
  qed
  show ?thesis
  proof (cases "field = ''data'' \<or> lodash_has E h (get_member h (body (req st)) ''data'') field")
    case False
    then have "merge_field E (body (req st)) sub (key, field) h = Inr h"
      by (simp add: merge_field_def)
    with False loop [of h] show ?thesis
      by simp
  next
    case True
    with child path(1) source
    have m: "merge_field E (body (req st)) sub (key, field) h = baseSet h a ks v"
      by (auto simp add: merge_field_def lodash_set_def)
    from baseSet_reads_back [OF path(4,2,3), of v] obtain h' where h':
      "baseSet h a ks v = Inr h'" "baseGet h' (Ref a) ks = v" "hasPath h' (Ref a) ks"
      by auto
    from baseSet_exact [OF path(4,2,3), of v] h'(1)
    have "case last_object h a ks of
            (b, kr) \<Rightarrow>
              h' = (h @ new_cells (length h) kr v)
                     [b := put_cell (h ! b) (hd kr) (if tl kr = [] then v else Ref (length h))]"
      by (simp split: prod.splits)
    with m h' True loop [of h'] show ?thesis
      by simp
  qed
qed

theorem merge_field_assigns_by_reference_witness:
  "updateSubmission ex_env ex_settings (Ref 5) ex_stored_state
     = (Done (Ref 5),
        ex_stored_state
          \<lparr>heap := ex_heap @ [Obj [(''place'', Ref 4), (''who'', Str ''Ann'')],
                              Obj [(''street'', Str ''Main''), (''town'', Str ''Oslo'')],
                              Obj [(''data'', Ref 3)]]\<rparr>)
   \<and> updateSubmission ex_env (ex_settings\<lparr>sfields := [(''nick'', ''nickname'')]\<rparr>) (Ref 5)
         ex_stored_state
       = (Done (Ref 5), ex_stored_state)"
proof -
  have skipped:
    "updateSubmission ex_env (ex_settings\<lparr>sfields := [(''nick'', ''nickname'')]\<rparr>) (Ref 5)
       ex_stored_state
     = (Done (Ref 5), ex_stored_state)"
  proof -
    let ?S = "ex_settings\<lparr>sfields := [(''nick'', ''nickname'')]\<rparr>"
    let ?h = "heap ex_stored_state"
    let ?b = "body (req ex_stored_state)"
    have a: "defaults ?h (Ref 5) = Inr (Ref 5, ?h)"
      by code_simp
    have b: "sfields ?S = [] @ (''nick'', ''nickname'') # []"
      by simp
    have c: "merge_fields ex_env ?b (Ref 5) [] ?h = Inr ?h"
      by simp
    have d: "get_member ?h (Ref 5) ''data'' = Ref 3"
      by code_simp
    have e: "castPath ex_env ?h (Ref 3) ''nick'' = [''nick'']"
      by (simp add: ex_env_def)
    have f: "[''nick''] \<noteq> []"
      by simp
    have g: "\<forall>k \<in> set [''nick'']. \<not> unsafe_key k"
      by (simp add: unsafe_key_def)
    have i: "simple_path ?h [] 3 [''nick'']"
      by code_simp
    have j: "(''nickname'' = ''data'' \<or> lodash_has ex_env ?h (get_member ?h ?b ''data'') ''nickname'')
             = False"
      by code_simp
    have n: "transform ?S = []"
      by (simp add: ex_settings_def)
    from merge_field_assigns_by_reference [OF a b c d e f g i refl, unfolded j if_False]
    obtain h' where "h' = ?h"
      and "updateSubmission ex_env ?S (Ref 5) ex_stored_state =
             (case merge_fields ex_env ?b (Ref 5) [] h' of
                Inl (e, hx) \<Rightarrow> (Thrown e, ex_stored_state\<lparr>heap := hx\<rparr>)
              | Inr h4 \<Rightarrow>
                  if transform ?S \<noteq> []
                  then (Done (Ref 5), run_transform ex_env ?S (Ref 5) (ex_stored_state\<lparr>heap := h4\<rparr>))
                  else (Done (Ref 5), ex_stored_state\<lparr>heap := h4\<rparr>))"
      by blast
    with n show ?thesis
      by simp
  qed
  let ?hs = "heap ex_stored_state"
  let ?h = "ex_heap @ [Obj [(''place'', Ref 4), (''who'', Str ''Ann'')],
                       Obj [(''street'', Str ''Main'')], Obj [(''data'', Ref 3)]]"
  let ?b = "body (req ex_stored_state)"
  have a: "defaults ?hs (Ref 5) = Inr (Ref 5, ?hs)"
    by code_simp
  have b: "sfields ex_settings = [(''who'', ''name'')] @ (''place.town'', ''address.city'') # []"
    by (simp add: ex_settings_def)
  have c: "merge_fields ex_env ?b (Ref 5) [(''who'', ''name'')] ?hs = Inr ?h"
    by code_simp
  have d: "get_member ?h (Ref 5) ''data'' = Ref 3"
    by code_simp
  have e: "castPath ex_env ?h (Ref 3) ''place.town'' = [''place'', ''town'']"
    by (simp add: ex_env_def)
  have f: "[''place'', ''town''] \<noteq> []"
    by simp
  have g: "\<forall>k \<in> set [''place'', ''town'']. \<not> unsafe_key k"
    by (simp add: unsafe_key_def)
  have i: "simple_path ?h [] 3 [''place'', ''town'']"
    by code_simp
  have j: "lodash_has ex_env ?h (get_member ?h ?b ''data'') ''address.city''"
    by code_simp
  have k: "lodash_get ex_env ?h (get_member ?h ?b ''data'') ''address.city'' = Str ''Oslo''"
    by code_simp
  have l: "last_object ?h 3 [''place'', ''town''] = (4, [''town''])"
    by code_simp
  have m: "(?h @ new_cells (length ?h) [''town''] (Str ''Oslo''))
             [4 := put_cell (?h ! 4) ''town'' (Str ''Oslo'')]
           = ex_heap @ [Obj [(''place'', Ref 4), (''who'', Str ''Ann'')],
                        Obj [(''street'', Str ''Main''), (''town'', Str ''Oslo'')],
                        Obj [(''data'', Ref 3)]]"
    by code_simp
  have n: "transform ex_settings = []"
    by (simp add: ex_settings_def)
  from merge_field_assigns_by_reference [OF a b c d e f g i refl]
  obtain h' where
    "if ''address.city'' = ''data'' \<or> lodash_has ex_env ?h (get_member ?h ?b ''data'') ''address.city''
     then (case last_object ?h 3 [''place'', ''town''] of
             (b, kr) \<Rightarrow>
               h' = (?h @ new_cells (length ?h) kr
                             (if ''address.city'' = ''data'' then get_member ?h ?b ''data''
                              else lodash_get ex_env ?h (get_member ?h ?b ''data'') ''address.city''))
                      [b := put_cell (?h ! b) (hd kr)
                              (if tl kr = []
                               then (if ''address.city'' = ''data'' then get_member ?h ?b ''data''
                                     else lodash_get ex_env ?h (get_member ?h ?b ''data'') ''address.city'')
                               else Ref (length ?h))])
          \<and> baseGet h' (Ref 3) [''place'', ''town'']
              = (if ''address.city'' = ''data'' then get_member ?h ?b ''data''
                 else lodash_get ex_env ?h (get_member ?h ?b ''data'') ''address.city'')
          \<and> hasPath h' (Ref 3) [''place'', ''town'']
     else h' = ?h"
    and u: "updateSubmission ex_env ex_settings (Ref 5) ex_stored_state =
       (case merge_fields ex_env ?b (Ref 5) [] h' of
          Inl (e, hx) \<Rightarrow> (Thrown e, ex_stored_state\<lparr>heap := hx\<rparr>)
        | Inr h4 \<Rightarrow>
            if transform ex_settings \<noteq> []
            then (Done (Ref 5), run_transform ex_env ex_settings (Ref 5) (ex_stored_state\<lparr>heap := h4\<rparr>))
            else (Done (Ref 5), ex_stored_state\<lparr>heap := h4\<rparr>))"
    by blast
  with j k l have "h' = (?h @ new_cells (length ?h) [''town''] (Str ''Oslo''))
                          [4 := put_cell (?h ! 4) ''town'' (Str ''Oslo'')]"
    by simp
  with m have "h' = ex_heap @ [Obj [(''place'', Ref 4), (''who'', Str ''Ann'')],
                               Obj [(''street'', Str ''Main''), (''town'', Str ''Oslo'')],
                               Obj [(''data'', Ref 3)]]"
    by simp
  with u n have "updateSubmission ex_env ex_settings (Ref 5) ex_stored_state
     = (Done (Ref 5),
        ex_stored_state
          \<lparr>heap := ex_heap @ [Obj [(''place'', Ref 4), (''who'', Str ''Ann'')],
                              Obj [(''street'', Str ''Main''), (''town'', Str ''Oslo'')],
                              Obj [(''data'', Ref 3)]]\<rparr>)"
    by simp
  with skipped show ?thesis
    by (simp only:)
qed

text \<open>
  The claim as written fails where it says that the value is copied and not shared.
  Mapping \<^verbatim>\<open>home\<close> to the source \<^verbatim>\<open>address\<close> leaves in the child's data the
  reference to the very object at address 1 that the primary's data holds. Mapping
  \<^verbatim>\<open>all\<close> to \<^verbatim>\<open>data\<close> and then \<^verbatim>\<open>all.extra\<close> to \<^verbatim>\<open>name\<close> makes the second
  turn write into the primary's own data at address 0.
\<close>

theorem merge_shares_objects_counterexample:
  "get_member (heap ex_child_state) (Ref 0) ''address'' = Ref 1
   \<and> merge_field ex_env (Ref 2) (Ref 5) (''home'', ''address'') (heap ex_child_state)
       = Inr ((heap ex_child_state)[3 := Obj [(''home'', Ref 1)]])
   \<and> merge_fields ex_env (Ref 2) (Ref 5) [(''all'', ''data''), (''all.extra'', ''name'')]
        (heap ex_child_state)
       = Inr ((heap ex_child_state)
                [3 := Obj [(''all'', Ref 0)],
                 0 := Obj [(''name'', Str ''Ann''), (''address'', Ref 1), (''extra'', Str ''Ann'')]])"
  by code_simp

end
